theory Spec2Isabelle
  imports Complex_Main
begin

section \<open>Errors and results\<close>

text \<open>
  Exceptions of the JavaScript program are values: \<open>Inl e\<close> is a thrown error,
  \<open>Inr x\<close> a normal return.
\<close>

datatype js_error = TypeError | SyntaxError | InvalidCharacterError | Error string

definition thenE :: "'e + 'a \<Rightarrow> ('a \<Rightarrow> 'e + 'b) \<Rightarrow> 'e + 'b" where
  "thenE r f = (case r of Inl e \<Rightarrow> Inl e | Inr x \<Rightarrow> f x)"

section \<open>The transition engine (transition and waitForTransition)\<close>

subsection \<open>The DOM element and its class list\<close>

text \<open>
  The part of an \<open>HTMLElement\<close> the engine touches: the token list behind
  \<open>classList\<close> (an ordered set), the \<open>hidden\<close> attribute and the inline
  \<open>style.display\<close>. A \<open>null\<close> node is \<open>None\<close>.
\<close>

record html_element =
  classList :: "string list"
  hidden :: bool
  style_display :: string

definition is_ascii_whitespace :: "char \<Rightarrow> bool" where
  "is_ascii_whitespace c = (of_char c \<in> {9, 10, 12, 13, 32 :: nat})"

text \<open>
  \<open>DOMTokenList.add\<close> and \<open>remove\<close> first validate every token: an empty token
  throws a SyntaxError, a token with ASCII whitespace an InvalidCharacterError.
\<close>

fun validate_tokens :: "string list \<Rightarrow> js_error option" where
  "validate_tokens [] = None"
| "validate_tokens (t # ts) =
     (if t = [] then Some SyntaxError
      else if list_ex is_ascii_whitespace t then Some InvalidCharacterError
      else validate_tokens ts)"

fun append_tokens :: "string list \<Rightarrow> string list \<Rightarrow> string list" where
  "append_tokens cl [] = cl"
| "append_tokens cl (t # ts) = append_tokens (if t \<in> set cl then cl else cl @ [t]) ts"

definition classList_add :: "html_element \<Rightarrow> string list \<Rightarrow> js_error + html_element" where
  "classList_add n tokens =
     (case validate_tokens tokens of
        Some e \<Rightarrow> Inl e
      | None \<Rightarrow> Inr (n\<lparr>classList := append_tokens (classList n) tokens\<rparr>))"

definition classList_remove :: "html_element \<Rightarrow> string list \<Rightarrow> js_error + html_element" where
  "classList_remove n tokens =
     (case validate_tokens tokens of
        Some e \<Rightarrow> Inl e
      | None \<Rightarrow> Inr (n\<lparr>classList := filter (\<lambda>t. t \<notin> set tokens) (classList n)\<rparr>))"

text \<open>
  \<open>node && classes.length > 0 && node.classList.add(...classes)\<close>: a missing node and
  an empty class list both skip the DOM call.
\<close>

definition addClasses :: "html_element option \<Rightarrow> string list \<Rightarrow> js_error + html_element option" where
  "addClasses node classes =
     (case node of
        None \<Rightarrow> Inr None
      | Some n \<Rightarrow>
          if length classes > 0 then thenE (classList_add n classes) (\<lambda>n'. Inr (Some n'))
          else Inr (Some n))"

definition removeClasses :: "html_element option \<Rightarrow> string list \<Rightarrow> js_error + html_element option" where
  "removeClasses node classes =
     (case node of
        None \<Rightarrow> Inr None
      | Some n \<Rightarrow>
          if length classes > 0 then thenE (classList_remove n classes) (\<lambda>n'. Inr (Some n'))
          else Inr (Some n))"

subsection \<open>Numbers and the computed transition times\<close>

text \<open>
  A JavaScript number is \<open>NaN\<close> or a value. Values are exact rationals: the rounding of
  IEEE doubles and the infinities are outside the model.
\<close>

datatype jsnum = NaN | Num rat

fun js_add :: "jsnum \<Rightarrow> jsnum \<Rightarrow> jsnum" where
  "js_add (Num a) (Num b) = Num (a + b)"
| "js_add _ _ = NaN"

fun js_sub :: "jsnum \<Rightarrow> jsnum \<Rightarrow> jsnum" where
  "js_sub (Num a) (Num b) = Num (a - b)"
| "js_sub _ _ = NaN"

fun js_mul :: "jsnum \<Rightarrow> jsnum \<Rightarrow> jsnum" where
  "js_mul (Num a) (Num b) = Num (a * b)"
| "js_mul _ _ = NaN"

text \<open>\<open>String.prototype.split(',')\<close>: the empty string gives one empty piece.\<close>

fun split_comma :: "string \<Rightarrow> string list" where
  "split_comma [] = [[]]"
| "split_comma (c # cs) =
     (if c = CHR '','' then [] # split_comma cs
      else (case split_comma cs of [] \<Rightarrow> [[c]] | x # xs \<Rightarrow> (c # x) # xs))"

fun starts_with :: "string \<Rightarrow> string \<Rightarrow> bool" where
  "starts_with _ [] = True"
| "starts_with [] (p # ps) = False"
| "starts_with (c # cs) (p # ps) = (c = p \<and> starts_with cs ps)"

text \<open>\<open>String.prototype.includes\<close>: the pattern occurs somewhere in the string.\<close>

fun str_includes :: "string \<Rightarrow> string \<Rightarrow> bool" where
  "str_includes [] p = (p = [])"
| "str_includes (c # cs) p = (starts_with (c # cs) p \<or> str_includes cs p)"

definition is_digit :: "char \<Rightarrow> bool" where
  "is_digit c = (48 \<le> (of_char c :: nat) \<and> (of_char c :: nat) \<le> 57)"

definition digit_val :: "char \<Rightarrow> nat" where
  "digit_val c = of_char c - 48"

definition nat_of_digits :: "string \<Rightarrow> nat" where
  "nat_of_digits ds = foldl (\<lambda>a c. 10 * a + digit_val c) 0 ds"

definition is_js_whitespace :: "char \<Rightarrow> bool" where
  "is_js_whitespace c = (of_char c \<in> {9, 10, 11, 12, 13, 32 :: nat})"

text \<open>
  The exponent part of a decimal literal, \<open>e\<close> or \<open>E\<close>, an optional sign and at least
  one digit; anything else is no exponent and is ignored as trailing text.
\<close>

definition exponent_factor :: "string \<Rightarrow> rat" where
  "exponent_factor s =
     (case s of
        [] \<Rightarrow> 1
      | c # r \<Rightarrow>
          if c = CHR ''e'' \<or> c = CHR ''E'' then
            (let neg = (case r of [] \<Rightarrow> False | x # _ \<Rightarrow> x = CHR ''-'');
                 r' = (case r of [] \<Rightarrow> []
                       | x # xs \<Rightarrow> if x = CHR ''-'' \<or> x = CHR ''+'' then xs else r);
                 ds = takeWhile is_digit r'
             in if ds = [] then 1
                else if neg then 1 / 10 ^ nat_of_digits ds
                else 10 ^ nat_of_digits ds)
          else 1)"

text \<open>
  \<open>parseFloat\<close>: leading white space is skipped, then the longest prefix that is a
  decimal literal is read (sign, digits, fraction, exponent); trailing text such as
  \<open>s\<close> or \<open>ms\<close> is ignored; no digit at all gives \<open>NaN\<close>. White space is the ASCII
  part of JavaScript's; the literal \<open>Infinity\<close> is outside the model.
\<close>

definition parseFloat :: "string \<Rightarrow> jsnum" where
  "parseFloat s =
     (let s1 = dropWhile is_js_whitespace s;
          neg = (case s1 of [] \<Rightarrow> False | x # _ \<Rightarrow> x = CHR ''-'');
          s2 = (case s1 of [] \<Rightarrow> []
                | x # xs \<Rightarrow> if x = CHR ''-'' \<or> x = CHR ''+'' then xs else s1);
          ip = takeWhile is_digit s2;
          r1 = dropWhile is_digit s2;
          dot = (case r1 of [] \<Rightarrow> False | x # _ \<Rightarrow> x = CHR ''.'');
          fp = (if dot then takeWhile is_digit (tl r1) else []);
          r2 = (if dot then dropWhile is_digit (tl r1) else r1)
      in if ip = [] \<and> fp = [] then NaN
         else
           (let m = of_nat (nat_of_digits ip) + of_nat (nat_of_digits fp) / 10 ^ length fp;
                v = m * exponent_factor r2
            in Num (if neg then - v else v)))"

text \<open>
  \<open>(v) => (v.includes('ms') ? parseFloat(v) : parseFloat(v) * 1000)\<close>: values are
  reported as \<open>0.3s\<close> or \<open>75ms\<close>.
\<close>

definition toMs :: "string \<Rightarrow> jsnum" where
  "toMs v = (if str_includes v ''ms'' then parseFloat v else js_mul (parseFloat v) (Num 1000))"

text \<open>
  \<open>Array.prototype.sort((a, z) => z - a)\<close>. The comparator's result decides the order:
  a result that is \<open>NaN\<close> counts as \<open>0\<close> (ECMAScript SortCompare). The sort is a stable
  insertion sort: on numbers every conforming sort gives the same list; with a
  \<open>NaN\<close> among the values the standard leaves the order to the implementation.
\<close>

definition sort_compare :: "jsnum \<Rightarrow> jsnum \<Rightarrow> rat" where
  "sort_compare a z = (case js_sub z a of NaN \<Rightarrow> 0 | Num r \<Rightarrow> r)"

fun js_insert :: "jsnum \<Rightarrow> jsnum list \<Rightarrow> jsnum list" where
  "js_insert x [] = [x]"
| "js_insert x (y # ys) =
     (if sort_compare y x \<le> 0 then y # js_insert x ys else x # y # ys)"

definition js_sort :: "jsnum list \<Rightarrow> jsnum list" where
  "js_sort xs = foldl (\<lambda>acc x. js_insert x acc) [] xs"

text \<open>
  The values of one property, after \<open>split(',')\<close>, \<open>filter(Boolean)\<close> (which drops the
  empty strings) and the conversion to milliseconds.
\<close>

definition time_values :: "string \<Rightarrow> jsnum list" where
  "time_values v = map toMs (filter (\<lambda>x. x \<noteq> []) (split_comma v))"

text \<open>\<open>let [resolvedValue = 0] = ...sort(...)\<close>: the first element, or 0 when there is none.\<close>

definition resolvedValue :: "string \<Rightarrow> jsnum" where
  "resolvedValue v = (case js_sort (time_values v) of [] \<Rightarrow> Num 0 | x # _ \<Rightarrow> x)"

definition totalDuration :: "string \<times> string \<Rightarrow> jsnum" where
  "totalDuration cs = js_add (resolvedValue (fst cs)) (resolvedValue (snd cs))"

subsection \<open>The state of one transition\<close>

text \<open>
  The class sets handed to \<open>transition\<close>, and what one call depends on besides the
  node: \<open>cls\<close> is the argument \<open>classes\<close>, \<open>show_t\<close> the argument \<open>show\<close>, \<open>has_done\<close>
  is \<open>done !== undefined\<close>, \<open>test_env\<close> is \<open>process.env.NODE_ENV === 'test'\<close>, and
  \<open>computed\<close> is the browser's \<open>getComputedStyle(node)\<close>, read for
  \<open>transitionDuration\<close> and \<open>transitionDelay\<close>.
\<close>

record classes =
  enter :: "string list"
  enterFrom :: "string list"
  enterTo :: "string list"
  leave :: "string list"
  leaveFrom :: "string list"
  leaveTo :: "string list"
  entered :: "string list"

record tcall =
  cls :: classes
  show_t :: bool
  has_done :: bool
  test_env :: bool
  computed :: "html_element \<Rightarrow> string \<times> string"

datatype direction = Enter | Leave

definition direction_of :: "tcall \<Rightarrow> direction" where
  "direction_of c = (if show_t c then Enter else Leave)"

definition base_cls :: "tcall \<Rightarrow> string list" where
  "base_cls c = (case direction_of c of Enter \<Rightarrow> enter (cls c) | Leave \<Rightarrow> leave (cls c))"

definition to_cls :: "tcall \<Rightarrow> string list" where
  "to_cls c = (case direction_of c of Enter \<Rightarrow> enterTo (cls c) | Leave \<Rightarrow> leaveTo (cls c))"

definition from_cls :: "tcall \<Rightarrow> string list" where
  "from_cls c = (case direction_of c of Enter \<Rightarrow> enterFrom (cls c) | Leave \<Rightarrow> leaveFrom (cls c))"

definition all_cls :: "tcall \<Rightarrow> string list" where
  "all_cls c = enter (cls c) @ enterTo (cls c) @ enterFrom (cls c) @ leave (cls c) @
     leaveFrom (cls c) @ leaveTo (cls c) @ entered (cls c)"

text \<open>
  Modelled from the spec: \<open>disposables()\<close> (utils/disposables is not under src/) is a
  registry of cleanups: \<open>add\<close> registers one; \<open>nextFrame\<close> and \<open>setTimeout\<close> schedule a
  callback that is cleared on dispose; \<open>addEventListener\<close> registers a listener that is
  removed on dispose; \<open>dispose\<close> empties the registry and runs the cleanups in reverse
  order, so a second call does nothing. The handle that \<open>setTimeout\<close> and
  \<open>addEventListener\<close> return releases that one registration. A registry is the list of
  its cleanups, oldest first.
\<close>

datatype cleanup = CancelFrame | ClearTimer | RemoveListener | CallDone

text \<open>
  \<open>node\<close> is the element (\<open>None\<close> for \<open>null\<close>); \<open>d_transition\<close> is the registry \<open>d\<close>
  of \<open>transition\<close>, whose \<open>dispose\<close> is returned to the caller; \<open>d_wait\<close> is the registry
  \<open>d\<close> of \<open>waitForTransition\<close>; \<open>frame_pending\<close>, \<open>timer\<close> and \<open>listener\<close> are the
  scheduled frame callback, the test-mode timer with its delay, and the
  \<open>transitionend\<close> listener on the node; \<open>once_called\<close> is the flag of \<open>once(done)\<close> and
  \<open>done_calls\<close> counts the invocations of the caller's \<open>done\<close>.
\<close>

record tstate =
  node :: "html_element option"
  d_transition :: "cleanup list"
  d_wait :: "cleanup list"
  frame_pending :: bool
  timer :: "jsnum option"
  listener :: bool
  once_called :: bool
  done_calls :: nat

text \<open>
  Modelled from the spec: \<open>once(done)\<close> (utils/once is not under src/) invokes \<open>done\<close>
  on its first call only. Without a \<open>done\<close> the stand-in \<open>() => {}\<close> is used.
\<close>

definition once_done :: "tcall \<Rightarrow> tstate \<Rightarrow> tstate" where
  "once_done c s =
     (if has_done c then
        (if once_called s then s
         else s\<lparr>once_called := True, done_calls := done_calls s + 1\<rparr>)
      else s)"

text \<open>
  The callback \<open>transition\<close> hands to \<open>waitForTransition\<close>:
  \<open>removeClasses(node, ...base); addClasses(node, ...classes.entered); return _done()\<close>.
\<close>

definition finished :: "tcall \<Rightarrow> tstate \<Rightarrow> js_error + tstate" where
  "finished c s =
     thenE (removeClasses (node s) (base_cls c)) (\<lambda>n1.
     thenE (addClasses n1 (entered (cls c))) (\<lambda>n2.
     Inr (once_done c (s\<lparr>node := n2\<rparr>))))"

text \<open>
  \<open>waitForTransition(node, done)\<close>, called with a fresh registry \<open>d_wait\<close>. A missing
  node returns at once. Otherwise the total of duration and delay decides: not 0 (also
  \<open>NaN\<close>) registers the timer in test mode and the \<open>transitionend\<close> listener otherwise;
  0 calls \<open>done\<close> directly. Then \<open>d.add(() => done())\<close>. The function returns the
  \<open>dispose\<close> of \<open>d_wait\<close>, which is \<open>dispose_wait\<close> below.
\<close>

definition waitForTransition :: "tcall \<Rightarrow> tstate \<Rightarrow> js_error + tstate" where
  "waitForTransition c s =
     (case node s of
        None \<Rightarrow> Inr (s\<lparr>d_wait := []\<rparr>)
      | Some n \<Rightarrow>
          (let total = totalDuration (computed c n) in
           if total \<noteq> Num 0 then
             (if test_env c then
                Inr (s\<lparr>timer := Some total, d_wait := [ClearTimer, CallDone]\<rparr>)
              else
                Inr (s\<lparr>listener := True, d_wait := [RemoveListener, CallDone]\<rparr>))
           else
             thenE (finished c (s\<lparr>d_wait := []\<rparr>)) (\<lambda>s1.
             Inr (s1\<lparr>d_wait := d_wait s1 @ [CallDone]\<rparr>))))"

fun run_cleanup :: "tcall \<Rightarrow> cleanup \<Rightarrow> tstate \<Rightarrow> js_error + tstate" where
  "run_cleanup c CancelFrame s = Inr (s\<lparr>frame_pending := False\<rparr>)"
| "run_cleanup c ClearTimer s = Inr (s\<lparr>timer := None\<rparr>)"
| "run_cleanup c RemoveListener s = Inr (s\<lparr>listener := False\<rparr>)"
| "run_cleanup c CallDone s = finished c s"

fun run_cleanups :: "tcall \<Rightarrow> cleanup list \<Rightarrow> tstate \<Rightarrow> js_error + tstate" where
  "run_cleanups c [] s = Inr s"
| "run_cleanups c (x # xs) s = thenE (run_cleanup c x s) (run_cleanups c xs)"

text \<open>The \<open>dispose\<close> that \<open>waitForTransition\<close> returns.\<close>

definition dispose_wait :: "tcall \<Rightarrow> tstate \<Rightarrow> js_error + tstate" where
  "dispose_wait c s = run_cleanups c (rev (d_wait s)) (s\<lparr>d_wait := []\<rparr>)"

text \<open>The \<open>dispose\<close> that \<open>transition\<close> returns.\<close>

definition dispose_transition :: "tcall \<Rightarrow> tstate \<Rightarrow> js_error + tstate" where
  "dispose_transition c s = run_cleanups c (rev (d_transition s)) (s\<lparr>d_transition := []\<rparr>)"

text \<open>
  \<open>transition(node, classes, show, done)\<close> up to its \<open>return d.dispose\<close>: an enter
  clears the hidden state (on a \<open>null\<close> node \<open>node.removeAttribute\<close> throws a
  TypeError), every class of every phase is removed, base and from are added, and the
  frame callback is scheduled on \<open>d\<close>.
\<close>

definition transition :: "tcall \<Rightarrow> html_element option \<Rightarrow> js_error + tstate" where
  "transition c nd =
     thenE (if direction_of c = Enter then
              (case nd of
                 None \<Rightarrow> Inl TypeError
               | Some n \<Rightarrow> Inr (Some (n\<lparr>hidden := False, style_display := []\<rparr>)))
            else Inr nd) (\<lambda>n0.
     thenE (removeClasses n0 (all_cls c)) (\<lambda>n1.
     thenE (addClasses n1 (base_cls c @ from_cls c)) (\<lambda>n2.
     Inr \<lparr>node = n2, d_transition = [CancelFrame], d_wait = [], frame_pending = True,
          timer = None, listener = False, once_called = False, done_calls = 0\<rparr>)))"

text \<open>
  The frame callback: \<open>removeClasses(node, ...from); addClasses(node, ...to)\<close>, then
  \<open>waitForTransition\<close>, whose returned \<open>dispose\<close> is dropped: nothing registers it on
  the registry of \<open>transition\<close>.
\<close>

definition frame_callback :: "tcall \<Rightarrow> tstate \<Rightarrow> js_error + tstate" where
  "frame_callback c s =
     thenE (removeClasses (node s) (from_cls c)) (\<lambda>n1.
     thenE (addClasses n1 (to_cls c)) (\<lambda>n2.
     waitForTransition c (s\<lparr>node := n2\<rparr>)))"

text \<open>
  What can happen after \<open>transition\<close> has returned: the animation frame arrives; a
  \<open>transitionend\<close> event reaches the node (\<open>True\<close> when \<open>event.target\<close> is the node
  itself, \<open>False\<close> when it bubbled up from a descendant); the test-mode timer fires; the
  caller invokes the returned disposer.
\<close>

datatype event = AnimationFrame | TransitionEnd bool | TimerFires | Dispose

fun step :: "tcall \<Rightarrow> event \<Rightarrow> tstate \<Rightarrow> js_error + tstate" where
  "step c AnimationFrame s =
     (if frame_pending s then frame_callback c (s\<lparr>frame_pending := False\<rparr>) else Inr s)"
| "step c (TransitionEnd self) s =
     (if listener s then
        (if \<not> self then Inr s
         else thenE (finished c s) (\<lambda>s1.
              Inr (s1\<lparr>listener := False, d_wait := remove1 RemoveListener (d_wait s1)\<rparr>)))
      else Inr s)"
| "step c TimerFires s =
     (if timer s \<noteq> None then
        thenE (finished c (s\<lparr>timer := None\<rparr>)) (\<lambda>s1.
        Inr (s1\<lparr>d_wait := remove1 ClearTimer (d_wait s1)\<rparr>))
      else Inr s)"
| "step c Dispose s = dispose_transition c s"

fun run :: "tcall \<Rightarrow> event list \<Rightarrow> tstate \<Rightarrow> js_error + tstate" where
  "run c [] s = Inr s"
| "run c (e # es) s = thenE (step c e s) (run c es)"

definition exec :: "tcall \<Rightarrow> html_element option \<Rightarrow> event list \<Rightarrow> js_error + tstate" where
  "exec c nd es = thenE (transition c nd) (run c es)"

text \<open>The event that ends a running transition: the timer in test mode, else the node's own \<open>transitionend\<close>.\<close>

definition natural_end :: "tcall \<Rightarrow> event" where
  "natural_end c = (if test_env c then TimerFires else TransitionEnd True)"

text \<open>
  The class sets of a call hold only tokens the DOM accepts: none is empty, none
  contains white space.
\<close>

definition valid_token_lists :: "tcall \<Rightarrow> bool" where
  "valid_token_lists c = (validate_tokens (all_cls c) = None)"

section \<open>The Dialog component (components/dialog/dialog.ts)\<close>

subsection \<open>Props, ambient state and the derived state\<close>

datatype DialogStates = Open | Closed

text \<open>
  Modelled from the spec: the ambient open/closed signal (internal/open-closed is not
  under src/) has the two values Open and Closed; \<open>useOpenClosed()\<close> returns it, or
  \<open>null\<close> when no ancestor supplies one.
\<close>

datatype State = State_Open | State_Closed

text \<open>
  The prop \<open>open\<close> is declared with \<open>type: [Boolean, String]\<close> and the default
  \<open>Missing\<close>, a string no caller is expected to pass.
\<close>

datatype prop_value = PBool bool | PString string

definition Missing :: string where
  "Missing = ''DC8F892D-2EBD-447C-A4C8-A03058436FF4''"

fun is_boolean :: "prop_value \<Rightarrow> bool" where
  "is_boolean (PBool b) = True"
| "is_boolean (PString s) = False"

text \<open>JavaScript truthiness, as \<open>open.value ? ... : ...\<close> reads it.\<close>

fun truthy :: "prop_value \<Rightarrow> bool" where
  "truthy (PBool b) = b"
| "truthy (PString s) = (s \<noteq> [])"

fun to_string :: "prop_value \<Rightarrow> string" where
  "to_string (PBool b) = (if b then ''true'' else ''false'')"
| "to_string (PString s) = s"

text \<open>
  The state of one Dialog instance: the refs and props that \<open>setup\<close> closes over.
  Elements are numbers; \<open>emitted\<close> is the log of \<open>emit\<close> calls.
\<close>

record dialog =
  ready :: bool
  props_open :: prop_value
  usesOpenClosedState :: "State option"
  nestedDialogCount :: int
  containers :: "nat set"
  hasParentDialog :: bool
  titleId :: "string option"
  panelRef :: "nat option"
  internalDialogRef :: "nat option"
  mainTreeNode :: "nat option"
  emitted :: "(string \<times> bool) list"

text \<open>
  The computed \<open>open\<close>: the ambient state stands in only when the prop is \<open>Missing\<close>.
\<close>

definition open_value :: "dialog \<Rightarrow> prop_value" where
  "open_value d =
     (case usesOpenClosedState d of
        Some st \<Rightarrow>
          if props_open d = PString Missing then
            (case st of State_Open \<Rightarrow> PBool True | State_Closed \<Rightarrow> PBool False)
          else props_open d
      | None \<Rightarrow> props_open d)"

definition dialogState :: "dialog \<Rightarrow> DialogStates" where
  "dialogState d = (if \<not> ready d then Closed else if truthy (open_value d) then Open else Closed)"

definition enabled :: "dialog \<Rightarrow> bool" where
  "enabled d = (dialogState d = Open)"

definition hasNestedDialogs :: "dialog \<Rightarrow> bool" where
  "hasNestedDialogs d = (nestedDialogCount d > 1)"

definition position :: "dialog \<Rightarrow> string" where
  "position d = (if \<not> hasNestedDialogs d then ''leaf'' else ''parent'')"

text \<open>
  The validations of \<open>setup\<close> and the state it starts from. \<open>parent\<close> is
  \<open>inject(DialogContext, null) !== null\<close>. The back quote of the messages is
  \<open>CHR 0x60\<close>.
\<close>

definition forgot_open_message :: string where
  "forgot_open_message = ''You forgot to provide an '' @ [CHR 0x60] @ ''open'' @ [CHR 0x60] @
     '' prop to the '' @ [CHR 0x60] @ ''Dialog'' @ [CHR 0x60] @ ''.''"

definition not_boolean_message :: "string \<Rightarrow> string" where
  "not_boolean_message received = ''You provided an '' @ [CHR 0x60] @ ''open'' @ [CHR 0x60] @
     '' prop to the '' @ [CHR 0x60] @ ''Dialog'' @ [CHR 0x60] @
     '', but the value is not a boolean. Received: '' @ received"

definition Dialog_setup :: "prop_value \<Rightarrow> State option \<Rightarrow> bool \<Rightarrow> js_error + dialog" where
  "Dialog_setup p u parent =
     (let d = \<lparr>ready = False, props_open = p, usesOpenClosedState = u, nestedDialogCount = 0,
                containers = {}, hasParentDialog = parent, titleId = None, panelRef = None,
                internalDialogRef = None, mainTreeNode = None, emitted = []\<rparr>;
          hasOpen = (p \<noteq> PString Missing \<or> u \<noteq> None)
      in if \<not> hasOpen then Inl (Error forgot_open_message)
         else if \<not> is_boolean (open_value d) then
           Inl (Error (not_boolean_message
             (if open_value d = PString Missing then ''undefined'' else to_string p)))
         else Inr d)"

text \<open>\<open>onMounted(() => { ready.value = true })\<close>.\<close>

definition onMounted :: "dialog \<Rightarrow> dialog" where
  "onMounted d = d\<lparr>ready := True\<rparr>"

text \<open>The host changes the prop \<open>open\<close>.\<close>

definition set_open :: "prop_value \<Rightarrow> dialog \<Rightarrow> dialog" where
  "set_open p d = d\<lparr>props_open := p\<rparr>"

subsection \<open>The stack of dialogs\<close>

datatype StackMessage = Add | Remove

text \<open>The \<open>onUpdate\<close> callback handed to \<open>useStackProvider\<close>.\<close>

definition onUpdate :: "StackMessage \<Rightarrow> string \<Rightarrow> nat \<Rightarrow> dialog \<Rightarrow> dialog" where
  "onUpdate message ty element d =
     (if ty \<noteq> ''Dialog'' then d
      else (case message of
              Add \<Rightarrow> d\<lparr>containers := insert element (containers d),
                        nestedDialogCount := nestedDialogCount d + 1\<rparr>
            | Remove \<Rightarrow> d\<lparr>containers := containers d - {element},
                           nestedDialogCount := nestedDialogCount d - 1\<rparr>))"

subsection \<open>The context API\<close>

definition setTitleId :: "string option \<Rightarrow> dialog \<Rightarrow> dialog" where
  "setTitleId i d = (if titleId d = i then d else d\<lparr>titleId := i\<rparr>)"

text \<open>\<open>close() { emit('close', false) }\<close>.\<close>

definition close :: "dialog \<Rightarrow> dialog" where
  "close d = d\<lparr>emitted := emitted d @ [(''close'', False)]\<rparr>"

subsection \<open>Escape and outside click\<close>

record keyboard_event =
  key :: string
  defaultPrevented :: bool
  propagationStopped :: bool

text \<open>Modelled from the spec: \<open>Keys.Escape\<close> (keyboard.ts is not under src/) is the key name \<open>Escape\<close>.\<close>

definition Keys_Escape :: string where
  "Keys_Escape = ''Escape''"

text \<open>The \<open>keydown\<close> listener: the event and the dialog after it has run.\<close>

definition keydown :: "keyboard_event \<Rightarrow> dialog \<Rightarrow> keyboard_event \<times> dialog" where
  "keydown event d =
     (if defaultPrevented event then (event, d)
      else if key event \<noteq> Keys_Escape then (event, d)
      else if dialogState d \<noteq> Open then (event, d)
      else if hasNestedDialogs d then (event, d)
      else (event\<lparr>defaultPrevented := True, propagationStopped := True\<rparr>, close d))"

text \<open>
  The document as \<open>resolveAllowedContainers\<close> sees it: \<open>query_roots\<close> are the elements
  \<open>querySelectorAll('body > *, [data-headlessui-portal]')\<close> finds, \<open>html_elements\<close> those
  that are instances of \<open>HTMLElement\<close>, \<open>dom_contains a b\<close> is \<open>a.contains(b)\<close>. A missing
  owner document is \<open>None\<close>.
\<close>

record document =
  query_roots :: "nat list"
  html_elements :: "nat set"
  dom_contains :: "nat \<Rightarrow> nat \<Rightarrow> bool"

definition contains_opt :: "document \<Rightarrow> nat \<Rightarrow> nat option \<Rightarrow> bool" where
  "contains_opt doc a b = (case b of None \<Rightarrow> False | Some e \<Rightarrow> dom_contains doc a e)"

definition resolveAllowedContainers :: "document option \<Rightarrow> dialog \<Rightarrow> nat option list" where
  "resolveAllowedContainers owner d =
     (let rootContainers =
            (case owner of
               None \<Rightarrow> []
             | Some doc \<Rightarrow>
                 filter (\<lambda>container.
                    if container \<notin> html_elements doc then False
                    else if contains_opt doc container (mainTreeNode d) then False
                    else if panelRef d \<noteq> None \<and> contains_opt doc container (panelRef d) then False
                    else True) (query_roots doc))
      in map Some rootContainers @
         [case panelRef d of Some p \<Rightarrow> Some p | None \<Rightarrow> internalDialogRef d])"

text \<open>
  Modelled from the spec: \<open>useOutsideClick\<close> (hooks/use-outside-click is not under src/)
  runs its callback only while its enabled flag holds and only for a click whose target
  lies outside every allowed container. The callback and the flag are the Dialog's:
  \<open>api.close()\<close>, then the focus goes to the target on the next tick (the second
  component of the result); enabled is \<open>dialogState = Open\<close> and no nested dialogs.
\<close>

definition outside_click :: "document \<Rightarrow> nat \<Rightarrow> dialog \<Rightarrow> dialog \<times> nat option" where
  "outside_click doc target d =
     (if dialogState d = Open \<and> \<not> hasNestedDialogs d then
        (if list_ex (\<lambda>container.
                 case container of None \<Rightarrow> False | Some c \<Rightarrow> dom_contains doc c target)
              (resolveAllowedContainers (Some doc) d)
         then (d, None)
         else (close d, Some target))
      else (d, None))"

subsection \<open>The scroll lock\<close>

text \<open>
  An inline style declaration maps CSS property names (\<open>padding-right\<close>) to values; an
  unset property has the empty string. \<open>getPropertyValue\<close> takes a CSS property name
  and lower-cases it; assigning to a property of \<open>node.style\<close>, as \<open>Object.assign\<close>
  does, goes through the camel-cased IDL attribute (\<open>paddingRight\<close>), which stands for
  the CSS property with a hyphen before each upper-case letter.
\<close>

type_synonym style_decl = "string \<Rightarrow> string"

definition is_upper :: "char \<Rightarrow> bool" where
  "is_upper c = (65 \<le> (of_char c :: nat) \<and> (of_char c :: nat) \<le> 90)"

definition to_lower :: "char \<Rightarrow> char" where
  "to_lower c = (if is_upper c then char_of ((of_char c :: nat) + 32) else c)"

definition idl_to_css :: "string \<Rightarrow> string" where
  "idl_to_css a = concat (map (\<lambda>c. if is_upper c then [CHR ''-'', to_lower c] else [c]) a)"

definition ascii_lowercase :: "string \<Rightarrow> string" where
  "ascii_lowercase a = map to_lower a"

definition getPropertyValue :: "style_decl \<Rightarrow> string \<Rightarrow> string" where
  "getPropertyValue st property = st (ascii_lowercase property)"

definition assign_style :: "style_decl \<Rightarrow> string \<Rightarrow> string \<Rightarrow> style_decl" where
  "assign_style st property v = st(idl_to_css property := v)"

datatype style_node = DocumentElement | Body

text \<open>
  The page the effect runs on: the inline styles of the document element and the body;
  the layout widths, which depend on the document element's style; the scroll offset;
  the platform; the two listeners of the iOS branch; the element its click listener
  may have captured, whether an element is still connected, and the elements scrolled
  into view.
\<close>

record page =
  root_style :: style_decl
  body_style :: style_decl
  innerWidth :: int
  clientWidth :: "style_decl \<Rightarrow> int"
  offsetWidth :: "style_decl \<Rightarrow> int"
  pageYOffset :: int
  isIOS :: bool
  click_listener :: bool
  touchmove_listener :: bool
  scrollToElement :: "nat option"
  isConnected :: "nat \<Rightarrow> bool"
  scrolledIntoView :: "nat list"

datatype lock_cleanup =
    RestoreStyle style_node string string
  | RemoveClickListener
  | RemoveTouchmoveListener
  | RestoreScroll int

definition style_of :: "style_node \<Rightarrow> page \<Rightarrow> style_decl" where
  "style_of nd pg = (case nd of DocumentElement \<Rightarrow> root_style pg | Body \<Rightarrow> body_style pg)"

definition set_style_of :: "style_node \<Rightarrow> style_decl \<Rightarrow> page \<Rightarrow> page" where
  "set_style_of nd st pg =
     (case nd of DocumentElement \<Rightarrow> pg\<lparr>root_style := st\<rparr> | Body \<Rightarrow> pg\<lparr>body_style := st\<rparr>)"

text \<open>
  \<open>style(node, property, value)\<close>: read the previous value with \<open>getPropertyValue\<close>,
  assign the new one, register the cleanup that assigns the previous one.
\<close>

definition style :: "style_node \<Rightarrow> string \<Rightarrow> string \<Rightarrow> page \<times> lock_cleanup list
    \<Rightarrow> page \<times> lock_cleanup list" where
  "style nd property v st =
     (let pg = fst st;
          previous = getPropertyValue (style_of nd pg) property
      in (set_style_of nd (assign_style (style_of nd pg) property v) pg,
          snd st @ [RestoreStyle nd property previous]))"

function string_of_nat :: "nat \<Rightarrow> string" where
  "string_of_nat n =
     (if n < 10 then [char_of (48 + n)]
      else string_of_nat (n div 10) @ [char_of (48 + n mod 10)])"
  by pat_completeness auto
termination
  by (relation "measure id") auto

definition string_of_int :: "int \<Rightarrow> string" where
  "string_of_int i = (if i < 0 then CHR ''-'' # string_of_nat (nat (- i)) else string_of_nat (nat i))"

text \<open>
  The scroll-lock effect. It does nothing unless the dialog is open, has no parent
  dialog and has an owner document; otherwise it returns the patched page and the
  registry \<open>d\<close> it hands to \<open>onInvalidate\<close>. The bodies of the click and touchmove
  listeners of the iOS branch touch no style and are left out; the listeners are flags.
\<close>

definition scroll_lock :: "dialog \<Rightarrow> bool \<Rightarrow> page \<Rightarrow> page \<times> lock_cleanup list" where
  "scroll_lock d has_owner pg =
     (if dialogState d \<noteq> Open then (pg, [])
      else if hasParentDialog d then (pg, [])
      else if \<not> has_owner then (pg, [])
      else
        (let scrollPosition = pageYOffset pg;
             scrollbarWidthBefore = innerWidth pg - clientWidth pg (root_style pg);
             s1 = style DocumentElement ''overflow'' ''hidden'' (pg, []);
             s2 = (if scrollbarWidthBefore > 0 then
                     (let scrollbarWidthAfter =
                            clientWidth pg (root_style (fst s1)) - offsetWidth pg (root_style (fst s1));
                          scrollbarWidth = scrollbarWidthBefore - scrollbarWidthAfter
                      in style DocumentElement ''paddingRight'' (string_of_int scrollbarWidth @ ''px'') s1)
                   else s1)
         in if isIOS pg then
              (let s3 = style Body ''marginTop'' (''-'' @ string_of_int scrollPosition @ ''px'') s2
               in ((fst s3)\<lparr>pageYOffset := 0, click_listener := True, touchmove_listener := True\<rparr>,
                   snd s3 @ [RemoveClickListener, RemoveTouchmoveListener, RestoreScroll scrollPosition]))
            else s2))"

fun run_lock_cleanup :: "lock_cleanup \<Rightarrow> page \<Rightarrow> page" where
  "run_lock_cleanup (RestoreStyle nd property previous) pg =
     set_style_of nd (assign_style (style_of nd pg) property previous) pg"
| "run_lock_cleanup RemoveClickListener pg = pg\<lparr>click_listener := False\<rparr>"
| "run_lock_cleanup RemoveTouchmoveListener pg = pg\<lparr>touchmove_listener := False\<rparr>"
| "run_lock_cleanup (RestoreScroll scrollPosition) pg =
     (let pg1 = pg\<lparr>pageYOffset := pageYOffset pg + scrollPosition\<rparr>
      in case scrollToElement pg1 of
           None \<Rightarrow> pg1
         | Some e \<Rightarrow>
             if isConnected pg1 e then
               pg1\<lparr>scrolledIntoView := scrolledIntoView pg1 @ [e], scrollToElement := None\<rparr>
             else pg1)"

text \<open>
  Modelled from the spec: \<open>dispose\<close> of the registry runs the registered cleanups in
  reverse order, on natural close and on forced disposal alike.
\<close>

definition dispose_lock :: "lock_cleanup list \<Rightarrow> page \<Rightarrow> page" where
  "dispose_lock reg pg = fold run_lock_cleanup (rev reg) pg"

section \<open>Notions for the statements and proofs\<close>

text \<open>
  The class list after each of the three class changes of a transition, the phases of
  a run, and the example inputs the theorems are instantiated at.
\<close>

definition start_classes :: "tcall \<Rightarrow> string list \<Rightarrow> string list" where
  "start_classes c cl = append_tokens (filter (\<lambda>t. t \<notin> set (all_cls c)) cl) (base_cls c @ from_cls c)"

definition frame_classes :: "tcall \<Rightarrow> string list \<Rightarrow> string list" where
  "frame_classes c cl = append_tokens (filter (\<lambda>t. t \<notin> set (from_cls c)) cl) (to_cls c)"

definition final_classes :: "tcall \<Rightarrow> string list \<Rightarrow> string list" where
  "final_classes c cl = append_tokens (filter (\<lambda>t. t \<notin> set (base_cls c)) cl) (entered (cls c))"

text \<open>
  The element as \<open>getComputedStyle\<close> reads it in the frame callback of a call on the
  element \<open>n\<close>: after \<open>transition\<close> has returned and the frame callback has removed
  the from classes and added the to classes. \<open>zero_total\<close> says that the computed
  duration and delay of that element add up to 0, so that no transition is declared.
\<close>

definition frame_node :: "tcall \<Rightarrow> html_element \<Rightarrow> html_element option" where
  "frame_node c n =
     (case transition c (Some n) of
        Inl e \<Rightarrow> None
      | Inr s0 \<Rightarrow>
          (case removeClasses (node s0) (from_cls c) of
             Inl e \<Rightarrow> None
           | Inr n1 \<Rightarrow> (case addClasses n1 (to_cls c) of Inl e \<Rightarrow> None | Inr m \<Rightarrow> m)))"

definition zero_total :: "tcall \<Rightarrow> html_element \<Rightarrow> bool" where
  "zero_total c n =
     (case frame_node c n of
        None \<Rightarrow> False
      | Some m \<Rightarrow> totalDuration (computed c m) = Num 0)"

definition inv_once :: "tstate \<Rightarrow> bool" where
  "inv_once s = (done_calls s = (if once_called s then 1 else 0))"

definition settled :: "tstate \<Rightarrow> bool" where
  "settled s = (\<not> frame_pending s \<and> \<not> listener s \<and> timer s = None \<and>
     (d_transition s = [] \<or> d_transition s = [CancelFrame]))"

definition waiting :: "tcall \<Rightarrow> tstate \<Rightarrow> bool" where
  "waiting c s = (\<not> frame_pending s \<and> \<not> once_called s \<and> done_calls s = 0 \<and>
     (d_transition s = [] \<or> d_transition s = [CancelFrame]) \<and>
     (if test_env c then timer s \<noteq> None \<and> \<not> listener s else listener s \<and> timer s = None))"

definition good :: "tstate \<Rightarrow> bool" where
  "good s = (inv_once s \<and> (d_transition s = [] \<or> d_transition s = [CancelFrame]))"

definition example_classes :: classes where
  "example_classes = \<lparr>enter = [''a''], enterFrom = [''b''], enterTo = [''c''],
     leave = [''p''], leaveFrom = [''q''], leaveTo = [''r''], entered = [''d'']\<rparr>"

definition example_call :: tcall where
  "example_call = \<lparr>cls = example_classes, show_t = True, has_done = True, test_env = False,
     computed = (\<lambda>_. (''0.3s, 0.5s'', ''75ms''))\<rparr>"

definition example_node :: html_element where
  "example_node = \<lparr>classList = [''x''], hidden = True, style_display = ''none''\<rparr>"

definition zero_call :: tcall where
  "zero_call = example_call\<lparr>computed := (\<lambda>_. (''0s'', ''0s''))\<rparr>"

definition overlap_call :: tcall where
  "overlap_call = example_call\<lparr>cls := example_classes\<lparr>enterTo := [''a'', ''c'']\<rparr>\<rparr>"

definition leave_call :: tcall where
  "leave_call = example_call\<lparr>show_t := False\<rparr>"

text \<open>The value of a number, and lists of numbers in descending order.\<close>

fun num_of :: "jsnum \<Rightarrow> rat" where
  "num_of (Num r) = r"
| "num_of NaN = 0"

definition descending :: "jsnum list \<Rightarrow> bool" where
  "descending xs = sorted_wrt (\<lambda>a b. num_of b \<le> num_of a) xs"

text \<open>An open dialog with a panel, its document and page, an Escape key press, and the page after lock and unlock.\<close>

definition example_dialog :: dialog where
  "example_dialog = \<lparr>ready = True, props_open = PBool True, usesOpenClosedState = None,
     nestedDialogCount = 1, containers = {7}, hasParentDialog = False, titleId = Some ''title-1'',
     panelRef = Some 8, internalDialogRef = Some 7, mainTreeNode = Some 3, emitted = []\<rparr>"

definition example_document :: document where
  "example_document = \<lparr>query_roots = [1, 2], html_elements = {1, 2},
     dom_contains = (\<lambda>a b. a = b \<or> (a, b) \<in> {(1, 3), (1, 4), (2, 7), (2, 8), (7, 8)})\<rparr>"

definition escape_event :: keyboard_event where
  "escape_event = \<lparr>key = ''Escape'', defaultPrevented = False, propagationStopped = False\<rparr>"

definition example_page :: page where
  "example_page = \<lparr>root_style = (\<lambda>_. [])(''padding-right'' := ''10px''), body_style = (\<lambda>_. []),
     innerWidth = 1015, clientWidth = (\<lambda>_. 1000), offsetWidth = (\<lambda>_. 1000), pageYOffset = 120,
     isIOS = False, click_listener = False, touchmove_listener = False, scrollToElement = None,
     isConnected = (\<lambda>_. True), scrolledIntoView = []\<rparr>"

definition unlocked :: "dialog \<Rightarrow> bool \<Rightarrow> page \<Rightarrow> page" where
  "unlocked d has_owner pg =
     dispose_lock (snd (scroll_lock d has_owner pg)) (fst (scroll_lock d has_owner pg))"

section \<open>Properties of the transition engine\<close>

subsection \<open>Results and class lists\<close>

lemma thenE_Inr [simp]: "thenE (Inr x) f = f x"
  by (simp add: thenE_def)

lemma thenE_Inl [simp]: "thenE (Inl e) f = Inl e"
  by (simp add: thenE_def)

lemma validate_tokens_append:
  "validate_tokens (xs @ ys) = None \<longleftrightarrow> validate_tokens xs = None \<and> validate_tokens ys = None"
  by (induction xs) auto

lemma set_append_tokens: "set (append_tokens cl ts) = set cl \<union> set ts"
  by (induction ts arbitrary: cl) auto

lemma addClasses_None [simp]: "addClasses None ts = Inr None"
  by (simp add: addClasses_def)

lemma removeClasses_None [simp]: "removeClasses None ts = Inr None"
  by (simp add: removeClasses_def)

lemma addClasses_valid:
  "validate_tokens ts = None \<Longrightarrow>
   addClasses (Some n) ts = Inr (Some (n\<lparr>classList := append_tokens (classList n) ts\<rparr>))"
  by (cases ts) (simp_all add: addClasses_def classList_add_def)

lemma removeClasses_valid:
  "validate_tokens ts = None \<Longrightarrow>
   removeClasses (Some n) ts = Inr (Some (n\<lparr>classList := filter (\<lambda>t. t \<notin> set ts) (classList n)\<rparr>))"
  by (cases ts) (simp_all add: removeClasses_def classList_remove_def)

lemma valid_parts:
  assumes "valid_token_lists c"
  shows "validate_tokens (base_cls c) = None" "validate_tokens (from_cls c) = None"
    "validate_tokens (to_cls c) = None" "validate_tokens (entered (cls c)) = None"
    "validate_tokens (base_cls c @ from_cls c) = None" "validate_tokens (all_cls c) = None"
  using assms
  by (auto simp: valid_token_lists_def all_cls_def base_cls_def from_cls_def to_cls_def
      validate_tokens_append split: direction.splits)

subsection \<open>The phases of a run\<close>

text \<open>
  A run is \<open>settled\<close> when nothing is scheduled any more, and \<open>waiting\<close> between the
  frame callback and the end of the CSS transition. \<open>good\<close> is the invariant of every
  run: \<open>done\<close> has been invoked once if the flag of \<open>once\<close> is set and never otherwise.
\<close>

lemma subsets_all:
  "set (base_cls c) \<subseteq> set (all_cls c)" "set (from_cls c) \<subseteq> set (all_cls c)"
  "set (to_cls c) \<subseteq> set (all_cls c)" "set (entered (cls c)) \<subseteq> set (all_cls c)"
  by (auto simp: all_cls_def base_cls_def from_cls_def to_cls_def split: direction.splits)

lemma set_final_classes:
  "set (final_classes c (frame_classes c (start_classes c cl))) =
     (set cl - set (all_cls c)) \<union> (set (to_cls c) - set (base_cls c)) \<union> set (entered (cls c))"
  using subsets_all [of c]
  by (auto simp: final_classes_def frame_classes_def start_classes_def set_append_tokens)

lemma finished_Some:
  assumes "valid_token_lists c" "node s = Some m"
  shows "finished c s =
     Inr (once_done c (s\<lparr>node := Some (m\<lparr>classList := final_classes c (classList m)\<rparr>)\<rparr>))"
  using assms valid_parts [OF assms(1)]
  by (simp add: finished_def removeClasses_valid addClasses_valid final_classes_def)

lemma finished_None:
  assumes "node s = None"
  shows "finished c s = Inr (once_done c s)"
  using assms by (cases s) (simp add: finished_def)

lemma transition_Some:
  assumes "valid_token_lists c"
  shows "transition c (Some n) =
     Inr \<lparr>node = Some ((if direction_of c = Enter then n\<lparr>hidden := False, style_display := []\<rparr> else n)
              \<lparr>classList := start_classes c (classList n)\<rparr>),
          d_transition = [CancelFrame], d_wait = [], frame_pending = True,
          timer = None, listener = False, once_called = False, done_calls = 0\<rparr>"
  using valid_parts [OF assms]
  by (simp add: transition_def removeClasses_valid addClasses_valid start_classes_def)

lemma step_settled:
  assumes "settled s"
  shows "\<exists>s'. step c e s = Inr s' \<and> settled s' \<and> node s' = node s \<and>
     done_calls s' = done_calls s \<and> once_called s' = once_called s"
  using assms by (cases e) (auto simp: settled_def dispose_transition_def)

lemma run_settled:
  assumes "settled s"
  shows "\<exists>s'. run c es s = Inr s' \<and> settled s' \<and> node s' = node s \<and>
     done_calls s' = done_calls s \<and> once_called s' = once_called s"
  using assms
proof (induction es arbitrary: s)
  case Nil
  then show ?case by simp
next
  case (Cons e es)
  from step_settled [OF Cons.prems, of c e] obtain s1 where
    s1: "step c e s = Inr s1" "settled s1" "node s1 = node s"
      "done_calls s1 = done_calls s" "once_called s1 = once_called s" by blast
  from Cons.IH [OF s1(2)] s1 show ?case by auto
qed

lemma step_waiting_other:
  assumes "waiting c s" "e \<noteq> natural_end c"
  shows "\<exists>s'. step c e s = Inr s' \<and> waiting c s' \<and> node s' = node s"
  using assms
  by (cases e) (auto simp: waiting_def natural_end_def dispose_transition_def split: if_splits)

lemma step_waiting_end:
  assumes "valid_token_lists c" "waiting c s" "node s = Some m"
  shows "\<exists>s'. step c (natural_end c) s = Inr s' \<and> settled s' \<and>
     node s' = Some (m\<lparr>classList := final_classes c (classList m)\<rparr>) \<and>
     done_calls s' = (if has_done c then 1 else 0)"
  using assms(2,3)
  by (auto simp: natural_end_def waiting_def settled_def finished_Some [OF assms(1)] once_done_def)

lemma run_waiting:
  assumes "valid_token_lists c" "waiting c s" "node s = Some m" "natural_end c \<in> set es"
  shows "\<exists>s'. run c es s = Inr s' \<and> settled s' \<and>
     node s' = Some (m\<lparr>classList := final_classes c (classList m)\<rparr>) \<and>
     done_calls s' = (if has_done c then 1 else 0)"
  using assms(2-)
proof (induction es arbitrary: s)
  case Nil
  then show ?case by simp
next
  case (Cons e es)
  show ?case
  proof (cases "e = natural_end c")
    case True
    from step_waiting_end [OF assms(1) Cons.prems(1,2)] obtain s1 where
      s1: "step c (natural_end c) s = Inr s1" "settled s1"
        "node s1 = Some (m\<lparr>classList := final_classes c (classList m)\<rparr>)"
        "done_calls s1 = (if has_done c then 1 else 0)" by blast
    from run_settled [OF s1(2), of c es] s1 True show ?thesis by auto
  next
    case False
    from step_waiting_other [OF Cons.prems(1) False] obtain s1 where
      s1: "step c e s = Inr s1" "waiting c s1" "node s1 = node s" by blast
    from False Cons.prems(3) have "natural_end c \<in> set es" by auto
    from Cons.IH [OF s1(2) _ this] s1 Cons.prems(2) show ?thesis by auto
  qed
qed

lemma frame_step:
  assumes v: "valid_token_lists c" and n: "node s = Some m" and fp: "frame_pending s"
    and clean: "\<not> once_called s" "done_calls s = 0" "timer s = None" "\<not> listener s"
      "d_transition s = [CancelFrame]"
  shows "\<exists>s'. step c AnimationFrame s = Inr s' \<and>
     (if totalDuration (computed c (m\<lparr>classList := frame_classes c (classList m)\<rparr>)) = Num 0
      then settled s' \<and>
        node s' = Some (m\<lparr>classList := final_classes c (frame_classes c (classList m))\<rparr>) \<and>
        done_calls s' = (if has_done c then 1 else 0)
      else waiting c s' \<and> node s' = Some (m\<lparr>classList := frame_classes c (classList m)\<rparr>))"
  using n fp clean valid_parts [OF v]
  by (auto simp: frame_callback_def waitForTransition_def removeClasses_valid addClasses_valid
      frame_classes_def [symmetric] finished_Some [OF v] once_done_def settled_def waiting_def Let_def)

lemma frame_node_eq:
  assumes "valid_token_lists c"
  shows "frame_node c n =
     Some ((if direction_of c = Enter then n\<lparr>hidden := False, style_display := []\<rparr> else n)
            \<lparr>classList := frame_classes c (start_classes c (classList n))\<rparr>)"
  using valid_parts [OF assms]
  by (simp add: frame_node_def transition_Some [OF assms] removeClasses_valid addClasses_valid
      frame_classes_def)

text \<open>
  A run in which the frame callback comes first and the transition ends: at once,
  when no transition is declared, or else with the event that ends it.
\<close>

lemma after_frame_run:
  assumes v: "valid_token_lists c" and fin: "zero_total c n \<or> natural_end c \<in> set es"
  shows "\<exists>s. exec c (Some n) (AnimationFrame # es) = Inr s \<and>
     node s = Some ((if direction_of c = Enter then n\<lparr>hidden := False, style_display := []\<rparr> else n)
            \<lparr>classList := final_classes c (frame_classes c (start_classes c (classList n)))\<rparr>) \<and>
     done_calls s = (if has_done c then 1 else 0)"
proof -
  let ?p = "if direction_of c = Enter then n\<lparr>hidden := False, style_display := []\<rparr> else n"
  let ?m0 = "?p\<lparr>classList := start_classes c (classList n)\<rparr>"
  let ?s0 = "\<lparr>node = Some ?m0, d_transition = [CancelFrame], d_wait = [], frame_pending = True,
          timer = None, listener = False, once_called = False, done_calls = 0\<rparr>"
  let ?mf = "?m0\<lparr>classList := frame_classes c (classList ?m0)\<rparr>"
  let ?fin = "?p\<lparr>classList := final_classes c (frame_classes c (start_classes c (classList n)))\<rparr>"
  have t: "transition c (Some n) = Inr ?s0" by (rule transition_Some [OF v])
  have m: "node ?s0 = Some ?m0" by simp
  have z: "zero_total c n \<longleftrightarrow> totalDuration (computed c ?mf) = Num 0"
    by (simp add: zero_total_def frame_node_eq [OF v])
  from frame_step [OF v m] obtain s1 where
    s1: "step c AnimationFrame ?s0 = Inr s1" and
    alt: "if totalDuration (computed c ?mf) = Num 0
      then settled s1 \<and>
        node s1 = Some (?m0\<lparr>classList := final_classes c (frame_classes c (classList ?m0))\<rparr>) \<and>
        done_calls s1 = (if has_done c then 1 else 0)
      else waiting c s1 \<and> node s1 = Some ?mf"
    by auto
  have "\<exists>s. run c es s1 = Inr s \<and> node s = Some ?fin \<and>
     done_calls s = (if has_done c then 1 else 0)"
  proof (cases "totalDuration (computed c ?mf) = Num 0")
    case True
    with alt have "settled s1" "node s1 = Some ?fin"
      "done_calls s1 = (if has_done c then 1 else 0)" by auto
    with run_settled [of s1 c es] show ?thesis by auto
  next
    case False
    with alt have w: "waiting c s1" and n1: "node s1 = Some ?mf" by auto
    from False z fin have ne: "natural_end c \<in> set es" by simp
    from run_waiting [OF v w n1 ne] show ?thesis by auto
  qed
  with t s1 show ?thesis by (auto simp: exec_def)
qed

lemma finished_total:
  assumes "valid_token_lists c"
  shows "\<exists>nd. finished c s = Inr (once_done c (s\<lparr>node := nd\<rparr>))"
proof (cases "node s")
  case None
  then have "s\<lparr>node := None\<rparr> = s" by (cases s) simp
  with finished_None [OF None, of c] show ?thesis by metis
next
  case (Some m)
  from finished_Some [OF assms Some] show ?thesis by blast
qed

lemma inv_once_once_done: "inv_once s \<Longrightarrow> inv_once (once_done c s)"
  by (simp add: inv_once_def once_done_def)

lemma once_done_fields [simp]:
  "d_transition (once_done c s) = d_transition s"
  "d_wait (once_done c s) = d_wait s"
  "frame_pending (once_done c s) = frame_pending s"
  "timer (once_done c s) = timer s"
  "listener (once_done c s) = listener s"
  "node (once_done c s) = node s"
  by (simp_all add: once_done_def)

lemma inv_once_upd [simp]:
  "inv_once (s\<lparr>node := a\<rparr>) = inv_once s"
  "inv_once (s\<lparr>d_wait := b\<rparr>) = inv_once s"
  "inv_once (s\<lparr>d_transition := b'\<rparr>) = inv_once s"
  "inv_once (s\<lparr>frame_pending := f\<rparr>) = inv_once s"
  "inv_once (s\<lparr>timer := t\<rparr>) = inv_once s"
  "inv_once (s\<lparr>listener := l\<rparr>) = inv_once s"
  by (simp_all add: inv_once_def)

lemma finished_good:
  assumes "valid_token_lists c" "good s"
  shows "\<exists>s'. finished c s = Inr s' \<and> good s' \<and> d_transition s' = d_transition s"
proof -
  from finished_total [OF assms(1), of s] obtain nd where
    "finished c s = Inr (once_done c (s\<lparr>node := nd\<rparr>))" by blast
  with assms(2) show ?thesis
    by (simp add: good_def inv_once_once_done)
qed

lemma waitForTransition_good:
  assumes "valid_token_lists c" "good s"
  shows "\<exists>s'. waitForTransition c s = Inr s' \<and> good s'"
proof (cases "node s")
  case None
  with assms(2) show ?thesis by (simp add: waitForTransition_def good_def)
next
  case (Some m)
  have g: "good (s\<lparr>d_wait := []\<rparr>)" using assms(2) by (simp add: good_def)
  from finished_good [OF assms(1) g] obtain s1 where
    s1: "finished c (s\<lparr>d_wait := []\<rparr>) = Inr s1" "good s1" by blast
  with Some assms(2) show ?thesis
    by (auto simp: waitForTransition_def good_def Let_def)
qed

lemma frame_callback_good:
  assumes "valid_token_lists c" "good s"
  shows "\<exists>s'. frame_callback c s = Inr s' \<and> good s'"
proof (cases "node s")
  case None
  then have eq: "s\<lparr>node := None\<rparr> = s" by (cases s) simp
  have "frame_callback c s = waitForTransition c (s\<lparr>node := None\<rparr>)"
    using None by (simp add: frame_callback_def)
  with eq waitForTransition_good [OF assms] show ?thesis by simp
next
  case (Some m)
  have g: "good (s\<lparr>node := Some (m\<lparr>classList := frame_classes c (classList m)\<rparr>)\<rparr>)"
    using assms(2) by (simp add: good_def)
  from waitForTransition_good [OF assms(1) g] Some valid_parts [OF assms(1)] show ?thesis
    by (simp add: frame_callback_def removeClasses_valid addClasses_valid frame_classes_def)
qed

lemma step_good:
  assumes "valid_token_lists c" "good s"
  shows "\<exists>s'. step c e s = Inr s' \<and> good s'"
proof (cases e)
  case AnimationFrame
  have g: "good (s\<lparr>frame_pending := False\<rparr>)" using assms(2) by (simp add: good_def)
  from frame_callback_good [OF assms(1) g] assms(2) AnimationFrame show ?thesis by auto
next
  case (TransitionEnd self)
  from finished_good [OF assms] obtain s1 where "finished c s = Inr s1" "good s1" by blast
  with assms(2) TransitionEnd show ?thesis by (auto simp: good_def)
next
  case TimerFires
  have g: "good (s\<lparr>timer := None\<rparr>)" using assms(2) by (simp add: good_def)
  from finished_good [OF assms(1) g] obtain s1 where
    "finished c (s\<lparr>timer := None\<rparr>) = Inr s1" "good s1" by blast
  with assms(2) TimerFires show ?thesis by (auto simp: good_def)
next
  case Dispose
  with assms(2) show ?thesis by (auto simp: good_def dispose_transition_def)
qed

lemma run_good:
  assumes "valid_token_lists c" "good s"
  shows "\<exists>s'. run c es s = Inr s' \<and> good s'"
  using assms(2)
proof (induction es arbitrary: s)
  case Nil
  then show ?case by simp
next
  case (Cons e es)
  from step_good [OF assms(1) Cons.prems, of e] obtain s1 where
    "step c e s = Inr s1" "good s1" by blast
  with Cons.IH [of s1] show ?case by auto
qed

lemma good_le_one: "good s \<Longrightarrow> done_calls s \<le> 1"
  by (simp add: good_def inv_once_def)

subsection \<open>How often the completion callback runs\<close>

lemma example_valid: "valid_token_lists example_call"
  by (simp add: valid_token_lists_def all_cls_def example_call_def example_classes_def
      is_ascii_whitespace_def)

lemma zero_valid: "valid_token_lists zero_call"
  by (simp add: valid_token_lists_def all_cls_def zero_call_def example_call_def example_classes_def
      is_ascii_whitespace_def)

lemma resolved_zero: "resolvedValue ''0s'' = Num 0"
  by code_simp

lemma zero_total_example: "zero_total zero_call example_node"
proof -
  have c: "computed zero_call m = (''0s'', ''0s'')" for m
    by (simp add: zero_call_def)
  show ?thesis
    unfolding zero_total_def frame_node_eq [OF zero_valid]
    by (simp add: c totalDuration_def resolved_zero)
qed

text \<open>
  C1 (amended). For a call of \<open>transition\<close> on an element, with class tokens the DOM
  accepts: whatever happens afterwards, the run never throws and the completion
  callback is invoked at most once; when the frame callback runs before the disposer
  is invoked and the transition then ends naturally (at once when the computed
  duration and delay add up to 0, else with the node's own \<open>transitionend\<close> or the
  timer of test mode), a supplied callback is invoked exactly once; when the returned disposer is invoked before the first animation frame, the
  callback is never invoked, whatever follows.
\<close>

theorem transition_done_calls:
  assumes "valid_token_lists c"
  shows "(\<exists>s. exec c (Some n) es = Inr s \<and> done_calls s \<le> 1) \<and>
    (has_done c \<and> (zero_total c n \<or> natural_end c \<in> set es) \<longrightarrow>
       (\<exists>s. exec c (Some n) (AnimationFrame # es) = Inr s \<and> done_calls s = 1)) \<and>
    (\<exists>s. exec c (Some n) (Dispose # es) = Inr s \<and> done_calls s = 0)"
proof -
  let ?s0 = "\<lparr>node = Some ((if direction_of c = Enter then n\<lparr>hidden := False, style_display := []\<rparr> else n)
              \<lparr>classList := start_classes c (classList n)\<rparr>),
          d_transition = [CancelFrame], d_wait = [], frame_pending = True,
          timer = None, listener = False, once_called = False, done_calls = 0\<rparr>"
  have t: "transition c (Some n) = Inr ?s0" by (rule transition_Some [OF assms])
  have g: "good ?s0" by (simp add: good_def inv_once_def)
  have a: "\<exists>s. exec c (Some n) es = Inr s \<and> done_calls s \<le> 1"
    using run_good [OF assms g, of es] t by (auto simp: exec_def dest: good_le_one)
  have b: "\<exists>s. exec c (Some n) (AnimationFrame # es) = Inr s \<and> done_calls s = 1"
    if h: "has_done c" and fin: "zero_total c n \<or> natural_end c \<in> set es"
    using after_frame_run [OF assms fin] h by auto
  have c: "\<exists>s. exec c (Some n) (Dispose # es) = Inr s \<and> done_calls s = 0"
  proof -
    let ?s1 = "?s0\<lparr>d_transition := [], frame_pending := False\<rparr>"
    have d: "step c Dispose ?s0 = Inr ?s1" by (simp add: dispose_transition_def)
    have "settled ?s1" by (simp add: settled_def)
    from run_settled [OF this, of c es] t d show ?thesis by (auto simp: exec_def)
  qed
  from a b c show ?thesis by blast
qed

text \<open>
  The theorem at the example call (a bubbled event, the node's own event, a late
  dispose) and at the call with no transition declared, where the frame alone ends it.
\<close>

theorem transition_done_calls_witness:
  "valid_token_lists example_call \<and> valid_token_lists zero_call \<and>
   has_done example_call \<and> has_done zero_call \<and> zero_total zero_call example_node \<and>
   natural_end example_call \<in> set [TransitionEnd False, TransitionEnd True, Dispose] \<and>
   (\<exists>s. exec example_call (Some example_node) [TransitionEnd False, TransitionEnd True, Dispose] = Inr s \<and> done_calls s \<le> 1) \<and>
   (\<exists>s. exec example_call (Some example_node) [AnimationFrame, TransitionEnd False, TransitionEnd True, Dispose] = Inr s \<and> done_calls s = 1) \<and>
   (\<exists>s. exec example_call (Some example_node) [Dispose, TransitionEnd False, TransitionEnd True, Dispose] = Inr s \<and> done_calls s = 0) \<and>
   (\<exists>s. exec zero_call (Some example_node) [AnimationFrame] = Inr s \<and> done_calls s = 1)"
proof -
  have h: "has_done example_call" "has_done zero_call"
    by (simp_all add: zero_call_def example_call_def)
  have ne: "natural_end example_call \<in> set [TransitionEnd False, TransitionEnd True, Dispose]"
    by (simp add: natural_end_def example_call_def)
  have fe: "has_done example_call \<and> (zero_total example_call example_node \<or>
      natural_end example_call \<in> set [TransitionEnd False, TransitionEnd True, Dispose])"
    using h ne by blast
  have fz: "has_done zero_call \<and> (zero_total zero_call example_node \<or>
      natural_end zero_call \<in> set [])"
    using h zero_total_example by blast
  from transition_done_calls [OF example_valid, of example_node
      "[TransitionEnd False, TransitionEnd True, Dispose]"] fe
  have e: "\<exists>s. exec example_call (Some example_node)
        [TransitionEnd False, TransitionEnd True, Dispose] = Inr s \<and> done_calls s \<le> 1"
    "\<exists>s. exec example_call (Some example_node)
        [AnimationFrame, TransitionEnd False, TransitionEnd True, Dispose] = Inr s \<and> done_calls s = 1"
    "\<exists>s. exec example_call (Some example_node)
        [Dispose, TransitionEnd False, TransitionEnd True, Dispose] = Inr s \<and> done_calls s = 0"
    by blast+
  from transition_done_calls [OF zero_valid, of example_node "[]"] fz
  have z: "\<exists>s. exec zero_call (Some example_node) [AnimationFrame] = Inr s \<and> done_calls s = 1"
    by blast
  from example_valid zero_valid h zero_total_example ne e z show ?thesis by blast
qed

text \<open>
  C1 as stated fails: the disposer is invoked before the first frame, the frame and the
  \<open>transitionend\<close> event arrive afterwards, and the callback has not been invoked.
\<close>

theorem done_never_called_counterexample:
  "has_done example_call \<and>
   (case exec example_call (Some example_node) [Dispose, AnimationFrame, TransitionEnd True] of
      Inl e \<Rightarrow> None | Inr s \<Rightarrow> Some (done_calls s)) = Some 0"
  by (simp add: exec_def transition_def example_call_def example_classes_def example_node_def
      direction_of_def all_cls_def base_cls_def from_cls_def removeClasses_def addClasses_def
      classList_remove_def classList_add_def is_ascii_whitespace_def dispose_transition_def)

subsection \<open>The classes after a transition has finished\<close>

lemma overlap_valid: "valid_token_lists overlap_call"
  by (simp add: valid_token_lists_def all_cls_def overlap_call_def example_call_def
      example_classes_def is_ascii_whitespace_def)

text \<open>
  C2 (amended). After a transition on an element has finished naturally (the frame
  callback has run and the transition has ended: at once when no transition is
  declared, else with the event that ends it), the class list holds exactly: the
  tokens it had before that belong to no phase, the tokens of \<open>enterTo\<close> that are not
  in \<open>enter\<close> (of \<open>leaveTo\<close> that are not in \<open>leave\<close>, for a leave), and the tokens of
  \<open>entered\<close>, after an enter and after a leave alike. So every token of \<open>entered\<close> is
  present; a token of \<open>enterTo\<close> stays unless it is also in \<open>enter\<close> and not in
  \<open>entered\<close>; a token of \<open>enter\<close> remains only if it is in \<open>entered\<close>, and a token of
  \<open>enterFrom\<close> only if it is in \<open>entered\<close> or in \<open>enterTo\<close> and not in \<open>enter\<close>.
\<close>

theorem classes_after_natural_finish:
  assumes "valid_token_lists c" "zero_total c n \<or> natural_end c \<in> set es"
  shows "\<exists>s m. exec c (Some n) (AnimationFrame # es) = Inr s \<and> node s = Some m \<and>
     set (classList m) =
       (set (classList n) - set (all_cls c)) \<union> (set (to_cls c) - set (base_cls c)) \<union>
       set (entered (cls c)) \<and>
     set (entered (cls c)) \<subseteq> set (classList m) \<and>
     set (to_cls c) - set (base_cls c) \<subseteq> set (classList m) \<and>
     set (base_cls c) \<inter> set (classList m) \<subseteq> set (entered (cls c)) \<and>
     set (from_cls c) \<inter> set (classList m) \<subseteq>
       (set (to_cls c) - set (base_cls c)) \<union> set (entered (cls c)) \<and>
     base_cls c = (if show_t c then enter (cls c) else leave (cls c)) \<and>
     from_cls c = (if show_t c then enterFrom (cls c) else leaveFrom (cls c)) \<and>
     to_cls c = (if show_t c then enterTo (cls c) else leaveTo (cls c))"
proof -
  let ?p = "if direction_of c = Enter then n\<lparr>hidden := False, style_display := []\<rparr> else n"
  let ?fin = "final_classes c (frame_classes c (start_classes c (classList n)))"
  from after_frame_run [OF assms] obtain s where
    e: "exec c (Some n) (AnimationFrame # es) = Inr s" and
    nd: "node s = Some (?p\<lparr>classList := ?fin\<rparr>)" by blast
  have cl: "set (classList (?p\<lparr>classList := ?fin\<rparr>)) =
       (set (classList n) - set (all_cls c)) \<union> (set (to_cls c) - set (base_cls c)) \<union>
       set (entered (cls c))"
    by (simp add: set_final_classes)
  have sub: "set (entered (cls c)) \<subseteq> set (classList (?p\<lparr>classList := ?fin\<rparr>))"
    "set (to_cls c) - set (base_cls c) \<subseteq> set (classList (?p\<lparr>classList := ?fin\<rparr>))"
    unfolding cl by blast+
  have only: "set (base_cls c) \<inter> set (classList (?p\<lparr>classList := ?fin\<rparr>)) \<subseteq> set (entered (cls c))"
    "set (from_cls c) \<inter> set (classList (?p\<lparr>classList := ?fin\<rparr>)) \<subseteq>
       (set (to_cls c) - set (base_cls c)) \<union> set (entered (cls c))"
    unfolding cl using subsets_all [of c] by blast+
  have d: "base_cls c = (if show_t c then enter (cls c) else leave (cls c))"
    "from_cls c = (if show_t c then enterFrom (cls c) else leaveFrom (cls c))"
    "to_cls c = (if show_t c then enterTo (cls c) else leaveTo (cls c))"
    by (simp_all add: to_cls_def from_cls_def base_cls_def direction_of_def)
  from e nd cl sub only d show ?thesis by blast
qed

text \<open>
  The theorem at the example call, with a bubbled event before the node's own; at the
  call with no transition declared, where the frame alone ends it; and at a call whose
  \<open>enterTo\<close> shares the token \<open>a\<close> with \<open>enter\<close>: \<open>a\<close> is gone at the end.
\<close>

theorem classes_after_natural_finish_witness:
  "valid_token_lists example_call \<and> valid_token_lists zero_call \<and>
   valid_token_lists overlap_call \<and> zero_total zero_call example_node \<and>
   natural_end example_call \<in> set [TransitionEnd False, TransitionEnd True] \<and>
   natural_end overlap_call \<in> set [TransitionEnd True] \<and>
   (\<exists>s m. exec example_call (Some example_node)
        [AnimationFrame, TransitionEnd False, TransitionEnd True] = Inr s \<and>
      node s = Some m \<and> set (classList m) = {''x'', ''c'', ''d''}) \<and>
   (\<exists>s m. exec zero_call (Some example_node) [AnimationFrame] = Inr s \<and>
      node s = Some m \<and> set (classList m) = {''x'', ''c'', ''d''}) \<and>
   enterTo (cls overlap_call) = [''a'', ''c''] \<and> enter (cls overlap_call) = [''a''] \<and>
   (\<exists>s m. exec overlap_call (Some example_node) [AnimationFrame, TransitionEnd True] = Inr s \<and>
      node s = Some m \<and> set (classList m) = {''x'', ''c'', ''d''})"
proof -
  have ne: "natural_end example_call \<in> set [TransitionEnd False, TransitionEnd True]"
    "natural_end overlap_call \<in> set [TransitionEnd True]"
    by (simp_all add: natural_end_def overlap_call_def example_call_def)
  have fe: "zero_total example_call example_node \<or>
      natural_end example_call \<in> set [TransitionEnd False, TransitionEnd True]"
    and fo: "zero_total overlap_call example_node \<or>
      natural_end overlap_call \<in> set [TransitionEnd True]"
    and fz: "zero_total zero_call example_node \<or> natural_end zero_call \<in> set []"
    using ne zero_total_example by blast+
  have se: "(set (classList example_node) - set (all_cls example_call)) \<union>
       (set (to_cls example_call) - set (base_cls example_call)) \<union>
       set (entered (cls example_call)) = {''x'', ''c'', ''d''}"
    by (auto simp: example_node_def example_call_def example_classes_def all_cls_def to_cls_def
        base_cls_def direction_of_def)
  have sz: "(set (classList example_node) - set (all_cls zero_call)) \<union>
       (set (to_cls zero_call) - set (base_cls zero_call)) \<union>
       set (entered (cls zero_call)) = {''x'', ''c'', ''d''}"
    by (auto simp: example_node_def zero_call_def example_call_def example_classes_def all_cls_def
        to_cls_def base_cls_def direction_of_def)
  have so: "(set (classList example_node) - set (all_cls overlap_call)) \<union>
       (set (to_cls overlap_call) - set (base_cls overlap_call)) \<union>
       set (entered (cls overlap_call)) = {''x'', ''c'', ''d''}"
    by (auto simp: example_node_def overlap_call_def example_call_def example_classes_def
        all_cls_def to_cls_def base_cls_def direction_of_def)
  have oc: "enterTo (cls overlap_call) = [''a'', ''c'']" "enter (cls overlap_call) = [''a'']"
    by (simp_all add: overlap_call_def example_call_def example_classes_def)
  from classes_after_natural_finish [OF example_valid fe] se
  have e: "\<exists>s m. exec example_call (Some example_node)
        [AnimationFrame, TransitionEnd False, TransitionEnd True] = Inr s \<and>
      node s = Some m \<and> set (classList m) = {''x'', ''c'', ''d''}"
    by metis
  from classes_after_natural_finish [OF zero_valid fz] sz
  have z: "\<exists>s m. exec zero_call (Some example_node) [AnimationFrame] = Inr s \<and>
      node s = Some m \<and> set (classList m) = {''x'', ''c'', ''d''}"
    by metis
  from classes_after_natural_finish [OF overlap_valid fo] so
  have o: "\<exists>s m. exec overlap_call (Some example_node) [AnimationFrame, TransitionEnd True] = Inr s \<and>
      node s = Some m \<and> set (classList m) = {''x'', ''c'', ''d''}"
    by metis
  from example_valid zero_valid overlap_valid zero_total_example ne e z o oc
  show ?thesis by blast
qed

text \<open>
  C2 as stated fails: after the enter transition of the example has finished, the token
  \<open>c\<close> of \<open>enterTo\<close> is still in the class list.
\<close>

theorem enterTo_remains_counterexample:
  "(case exec example_call (Some example_node) [AnimationFrame, TransitionEnd True] of
      Inl e \<Rightarrow> None | Inr s \<Rightarrow> map_option classList (node s)) = Some [''x'', ''c'', ''d''] \<and>
   enterTo (cls example_call) = [''c'']"
proof -
  have t: "totalDuration (''0.3s, 0.5s'', ''75ms'') = Num 575" by code_simp
  show ?thesis
  by (simp add: exec_def transition_def example_call_def example_classes_def example_node_def
      direction_of_def all_cls_def base_cls_def from_cls_def to_cls_def removeClasses_def addClasses_def
      classList_remove_def classList_add_def is_ascii_whitespace_def frame_callback_def
      waitForTransition_def t finished_def once_done_def)
qed

subsection \<open>No transition declared\<close>

text \<open>
  C7 (amended). For a call of \<open>transition\<close> on an element with a completion callback,
  where the computed \<open>transition-duration\<close> and \<open>transition-delay\<close> both resolve to 0
  when the frame callback reads them: \<open>transition\<close> itself returns with the frame
  callback scheduled and the callback not yet invoked; the frame callback invokes it,
  once, before it returns, with no listener and no timer registered, so no event is
  waited for, and nothing that happens later invokes it again; when the returned
  disposer is invoked before the frame callback has run, the callback is never
  invoked.
\<close>

theorem zero_duration_done_in_frame:
  assumes v: "valid_token_lists c" and h: "has_done c"
    and t: "transition c (Some n) = Inr s0"
    and r: "removeClasses (node s0) (from_cls c) = Inr n1"
    and a: "addClasses n1 (to_cls c) = Inr (Some m)"
    and z: "resolvedValue (fst (computed c m)) = Num 0" "resolvedValue (snd (computed c m)) = Num 0"
  shows "done_calls s0 = 0 \<and> frame_pending s0 \<and>
     (\<exists>s1. step c AnimationFrame s0 = Inr s1 \<and> done_calls s1 = 1 \<and>
        \<not> listener s1 \<and> timer s1 = None \<and>
        (\<forall>es. \<exists>s. run c es s1 = Inr s \<and> done_calls s = 1)) \<and>
     (\<forall>es. \<exists>s. run c (Dispose # es) s0 = Inr s \<and> done_calls s = 0)"
proof -
  let ?m0 = "(if direction_of c = Enter then n\<lparr>hidden := False, style_display := []\<rparr> else n)
              \<lparr>classList := start_classes c (classList n)\<rparr>"
  let ?s0 = "\<lparr>node = Some ?m0, d_transition = [CancelFrame], d_wait = [], frame_pending = True,
          timer = None, listener = False, once_called = False, done_calls = 0\<rparr>"
  from t transition_Some [OF v, of n] have s0: "s0 = ?s0" by simp
  have n0: "node ?s0 = Some ?m0" by simp
  from r a s0 valid_parts [OF v] have m: "m = ?m0\<lparr>classList := frame_classes c (classList ?m0)\<rparr>"
    by (auto simp: removeClasses_valid addClasses_valid frame_classes_def)
  from z have tot: "totalDuration (computed c m) = Num 0"
    by (simp add: totalDuration_def)
  from frame_step [OF v n0] tot m obtain s1 where
    s1: "step c AnimationFrame ?s0 = Inr s1" "settled s1" "done_calls s1 = (if has_done c then 1 else 0)"
    by auto
  have later: "\<exists>s. run c es s1 = Inr s \<and> done_calls s = 1" for es
    using run_settled [OF s1(2), of c es] s1(3) h by auto
  have framed: "\<exists>s1. step c AnimationFrame s0 = Inr s1 \<and> done_calls s1 = 1 \<and>
        \<not> listener s1 \<and> timer s1 = None \<and>
        (\<forall>es. \<exists>s. run c es s1 = Inr s \<and> done_calls s = 1)"
    using s1 h s0 later by (auto simp: settled_def)
  have disposed: "\<exists>s. run c (Dispose # es) s0 = Inr s \<and> done_calls s = 0" for es
  proof -
    let ?s1 = "?s0\<lparr>d_transition := [], frame_pending := False\<rparr>"
    have d: "step c Dispose ?s0 = Inr ?s1" by (simp add: dispose_transition_def)
    have "settled ?s1" by (simp add: settled_def)
    from run_settled [OF this, of c es] d s0 show ?thesis by auto
  qed
  from s0 have "done_calls s0 = 0" "frame_pending s0" by simp_all
  with framed disposed show ?thesis by blast
qed

text \<open>The theorem at the example call with the computed times \<open>0s\<close> and \<open>0s\<close>.\<close>

theorem zero_duration_done_in_frame_witness:
  "valid_token_lists zero_call \<and> has_done zero_call \<and> resolvedValue ''0s'' = Num 0 \<and>
   (\<exists>s0 s1. transition zero_call (Some example_node) = Inr s0 \<and>
      done_calls s0 = 0 \<and> frame_pending s0 \<and>
      step zero_call AnimationFrame s0 = Inr s1 \<and> done_calls s1 = 1 \<and>
      \<not> listener s1 \<and> timer s1 = None \<and>
      (\<exists>s. run zero_call [Dispose, AnimationFrame] s0 = Inr s \<and> done_calls s = 0))"
proof -
  let ?m0 = "\<lparr>classList = [''x'', ''a'', ''b''], hidden = False, style_display = []\<rparr>"
  let ?s0 = "\<lparr>node = Some ?m0, d_transition = [CancelFrame], d_wait = [], frame_pending = True,
          timer = None, listener = False, once_called = False, done_calls = 0\<rparr>"
  let ?n1 = "Some \<lparr>classList = [''x'', ''a''], hidden = False, style_display = []\<rparr>"
  let ?m = "\<lparr>classList = [''x'', ''a'', ''c''], hidden = False, style_display = []\<rparr>"
  have h: "has_done zero_call" by (simp add: zero_call_def example_call_def)
  have t: "transition zero_call (Some example_node) = Inr ?s0"
    by (simp add: transition_def zero_call_def example_call_def example_classes_def example_node_def
      direction_of_def all_cls_def base_cls_def from_cls_def removeClasses_def addClasses_def
      classList_remove_def classList_add_def is_ascii_whitespace_def)
  have r: "removeClasses (node ?s0) (from_cls zero_call) = Inr ?n1"
    by (simp add: zero_call_def example_call_def example_classes_def
      direction_of_def from_cls_def removeClasses_def classList_remove_def is_ascii_whitespace_def)
  have a: "addClasses ?n1 (to_cls zero_call) = Inr (Some ?m)"
    by (simp add: zero_call_def example_call_def example_classes_def
      direction_of_def to_cls_def addClasses_def classList_add_def is_ascii_whitespace_def)
  have z: "resolvedValue (fst (computed zero_call ?m)) = Num 0"
    "resolvedValue (snd (computed zero_call ?m)) = Num 0"
    by (simp_all add: zero_call_def resolved_zero)
  from zero_duration_done_in_frame [OF zero_valid h t r a z]
  have f: "\<exists>s1. step zero_call AnimationFrame ?s0 = Inr s1 \<and> done_calls s1 = 1 \<and>
        \<not> listener s1 \<and> timer s1 = None"
    and d: "\<exists>s. run zero_call [Dispose, AnimationFrame] ?s0 = Inr s \<and> done_calls s = 0"
    by blast+
  from f d t zero_valid h resolved_zero show ?thesis by auto
qed

text \<open>
  C7 as stated fails: with the computed times \<open>0s\<close> and \<open>0s\<close>, the callback has not
  been invoked when \<open>transition\<close> returns, and it is never invoked when the disposer
  is called before the frame arrives.
\<close>

theorem zero_duration_not_at_once_counterexample:
  "has_done zero_call \<and> computed zero_call example_node = (''0s'', ''0s'') \<and>
   totalDuration (''0s'', ''0s'') = Num 0 \<and>
   (case exec zero_call (Some example_node) [] of
      Inl e \<Rightarrow> None | Inr s \<Rightarrow> Some (done_calls s)) = Some 0 \<and>
   (case exec zero_call (Some example_node) [Dispose, AnimationFrame] of
      Inl e \<Rightarrow> None | Inr s \<Rightarrow> Some (done_calls s)) = Some 0"
proof -
  have t: "totalDuration (''0s'', ''0s'') = Num 0" by code_simp
  show ?thesis
    by (simp add: t exec_def transition_def zero_call_def example_call_def example_classes_def
      example_node_def direction_of_def all_cls_def base_cls_def from_cls_def removeClasses_def
      addClasses_def classList_remove_def classList_add_def is_ascii_whitespace_def
      dispose_transition_def)
qed

subsection \<open>Missing nodes and empty class lists\<close>

text \<open>
  C9 (amended). With a \<open>null\<close> node a leave (\<open>show = false\<close>) does not throw: the
  frame callback reaches \<open>waitForTransition\<close>, which returns at once with a disposer
  that has nothing to do, and the callback is not invoked; an enter (\<open>show = true\<close>)
  throws a TypeError where it clears the hidden state. \<open>addClasses\<close> and
  \<open>removeClasses\<close> never throw on a missing node or on an empty class list.
\<close>

theorem null_node_and_empty_classes:
  "(\<not> show_t c \<longrightarrow>
      (\<exists>s0 s1. transition c None = Inr s0 \<and> node s0 = None \<and>
         step c AnimationFrame s0 = Inr s1 \<and> d_wait s1 = [] \<and> dispose_wait c s1 = Inr s1 \<and>
         done_calls s1 = 0)) \<and>
   (show_t c \<longrightarrow> transition c None = Inl TypeError) \<and>
   addClasses None ts = Inr None \<and> removeClasses None ts = Inr None \<and>
   addClasses nd [] = Inr nd \<and> removeClasses nd [] = Inr nd"
proof -
  have e: "addClasses nd [] = Inr nd" "removeClasses nd [] = Inr nd"
    by (cases nd; simp add: addClasses_def removeClasses_def)+
  have "\<exists>s0 s1. transition c None = Inr s0 \<and> node s0 = None \<and>
         step c AnimationFrame s0 = Inr s1 \<and> d_wait s1 = [] \<and> dispose_wait c s1 = Inr s1 \<and>
         done_calls s1 = 0" if "\<not> show_t c"
    using that
    by (simp add: transition_def direction_of_def frame_callback_def waitForTransition_def
        dispose_wait_def)
  moreover have "transition c None = Inl TypeError" if "show_t c"
    using that by (simp add: transition_def direction_of_def)
  ultimately show ?thesis using e by simp
qed

text \<open>The theorem at a leave and at an enter of the example classes.\<close>

theorem null_node_and_empty_classes_witness:
  "\<not> show_t leave_call \<and> show_t example_call \<and>
   (\<exists>s0 s1. transition leave_call None = Inr s0 \<and> node s0 = None \<and>
         step leave_call AnimationFrame s0 = Inr s1 \<and> d_wait s1 = [] \<and>
         dispose_wait leave_call s1 = Inr s1 \<and> done_calls s1 = 0) \<and>
   transition example_call None = Inl TypeError \<and>
   addClasses None [''a''] = Inr None \<and> removeClasses None [''a''] = Inr None \<and>
   addClasses (Some example_node) [] = Inr (Some example_node) \<and>
   removeClasses (Some example_node) [] = Inr (Some example_node)"
  using null_node_and_empty_classes [of leave_call "[''a'']" "Some example_node"]
    null_node_and_empty_classes [of example_call "[''a'']" "Some example_node"]
  by (simp add: leave_call_def example_call_def)

text \<open>C9 as stated fails: an enter on a \<open>null\<close> node throws.\<close>

theorem null_node_enter_throws_counterexample:
  "show_t example_call \<and> transition example_call None = Inl TypeError"
  by (simp add: transition_def direction_of_def example_call_def)

subsection \<open>The computed transition times\<close>

lemma set_js_insert: "set (js_insert x ys) = insert x (set ys)"
  by (induction ys) auto

lemma sort_compare_Num: "sort_compare (Num a) (Num z) = z - a"
  by (simp add: sort_compare_def)

lemma descending_js_insert:
  assumes "descending ys" "NaN \<notin> set ys" "x \<noteq> NaN"
  shows "descending (js_insert x ys)"
  using assms
proof (induction ys)
  case Nil
  then show ?case by (simp add: descending_def)
next
  case (Cons y ys)
  from Cons.prems obtain a b where ab: "x = Num a" "y = Num b"
    by (cases x; cases y) auto
  from Cons.prems have "\<forall>z\<in>set ys. num_of z \<le> b"
    using ab by (simp add: descending_def)
  with Cons ab show ?case
    by (auto simp: descending_def sort_compare_Num set_js_insert)
qed

lemma foldl_js_insert:
  assumes "descending acc" "NaN \<notin> set acc" "NaN \<notin> set xs"
  shows "descending (foldl (\<lambda>acc x. js_insert x acc) acc xs) \<and>
     set (foldl (\<lambda>acc x. js_insert x acc) acc xs) = set acc \<union> set xs"
  using assms
proof (induction xs arbitrary: acc)
  case Nil
  then show ?case by simp
next
  case (Cons x xs)
  have d: "descending (js_insert x acc)"
    using Cons.prems by (intro descending_js_insert) auto
  have n: "NaN \<notin> set (js_insert x acc)"
    using Cons.prems by (auto simp: set_js_insert)
  from Cons.IH [OF d n] Cons.prems show ?case
    by (auto simp: set_js_insert)
qed

lemma js_sort_numbers:
  assumes "NaN \<notin> set xs"
  shows "descending (js_sort xs)" "set (js_sort xs) = set xs"
  using foldl_js_insert [of "[]" xs] assms by (simp_all add: js_sort_def descending_def)

lemma hd_descending_Max:
  assumes "descending (x # xs)" "NaN \<notin> set (x # xs)"
  shows "x = Num (Max (num_of ` set (x # xs)))"
proof -
  from assms(1) have "\<forall>y\<in>set xs. num_of y \<le> num_of x" by (simp add: descending_def)
  then have "Max (num_of ` set (x # xs)) = num_of x"
    by (intro Max_eqI) auto
  moreover from assms(2) have "x = Num (num_of x)" by (cases x) auto
  ultimately show ?thesis by simp
qed

lemma example_time_values:
  "time_values ''0.3s, 0.5s'' = [Num 300, Num 500]" "time_values ''75ms'' = [Num 75]"
  "time_values [] = []"
  by code_simp+

text \<open>
  C8. For computed \<open>transition-duration\<close> and \<open>transition-delay\<close> strings whose items
  all resolve to numbers, the resolved value of each property is the largest of its
  items in milliseconds (an item without \<open>ms\<close> is in seconds and is multiplied by
  1000), it is 0 when the list has no item, and the total wait is the sum of the two
  resolved values.
\<close>

theorem resolved_value_is_largest:
  assumes "NaN \<notin> set (time_values duration)" "NaN \<notin> set (time_values delay)"
  shows "resolvedValue duration =
      (if time_values duration = [] then Num 0
       else Num (Max (num_of ` set (time_values duration)))) \<and>
    resolvedValue delay =
      (if time_values delay = [] then Num 0
       else Num (Max (num_of ` set (time_values delay)))) \<and>
    totalDuration (duration, delay) =
      Num (num_of (resolvedValue duration) + num_of (resolvedValue delay)) \<and>
    time_values duration =
      map (\<lambda>v. if str_includes v ''ms'' then parseFloat v else js_mul (parseFloat v) (Num 1000))
        (filter (\<lambda>v. v \<noteq> []) (split_comma duration))"
proof -
  have r: "resolvedValue v =
      (if time_values v = [] then Num 0 else Num (Max (num_of ` set (time_values v))))"
    if n: "NaN \<notin> set (time_values v)" for v
  proof (cases "js_sort (time_values v)")
    case Nil
    with js_sort_numbers(2) [OF n] show ?thesis by (simp add: resolvedValue_def)
  next
    case (Cons x xs)
    from js_sort_numbers [OF n] Cons have d: "descending (x # xs)"
      and s: "set (x # xs) = set (time_values v)" by simp_all
    from s n have "NaN \<notin> set (x # xs)" by simp
    from hd_descending_Max [OF d this] have "x = Num (Max (num_of ` set (x # xs)))" .
    then have x: "x = Num (Max (num_of ` set (time_values v)))" unfolding s .
    from s have "time_values v \<noteq> []" by auto
    with x Cons show ?thesis by (simp add: resolvedValue_def)
  qed
  have t: "totalDuration (duration, delay) =
      Num (num_of (resolvedValue duration) + num_of (resolvedValue delay))"
    using r [OF assms(1)] r [OF assms(2)] by (simp add: totalDuration_def)
  have m: "time_values duration =
      map (\<lambda>v. if str_includes v ''ms'' then parseFloat v else js_mul (parseFloat v) (Num 1000))
        (filter (\<lambda>v. v \<noteq> []) (split_comma duration))"
    by (simp add: time_values_def toMs_def cong: map_cong)
  from r [OF assms(1)] r [OF assms(2)] t m show ?thesis by blast
qed

text \<open>The theorem at \<open>0.3s, 0.5s\<close> with \<open>75ms\<close>, and with an empty delay.\<close>

theorem resolved_value_is_largest_witness:
  "NaN \<notin> set (time_values ''0.3s, 0.5s'') \<and> NaN \<notin> set (time_values ''75ms'') \<and>
   NaN \<notin> set (time_values []) \<and>
   resolvedValue ''0.3s, 0.5s'' = Num 500 \<and> resolvedValue ''75ms'' = Num 75 \<and>
   resolvedValue [] = Num 0 \<and>
   totalDuration (''0.3s, 0.5s'', ''75ms'') = Num 575 \<and>
   totalDuration (''0.3s, 0.5s'', []) = Num 500"
proof -
  have n: "NaN \<notin> set (time_values ''0.3s, 0.5s'')" "NaN \<notin> set (time_values ''75ms'')"
    "NaN \<notin> set (time_values [])"
    by (simp_all add: example_time_values)
  have m: "Max (num_of ` set [Num 300, Num 500]) = 500" "Max (num_of ` set [Num 75]) = 75"
    by simp_all
  from resolved_value_is_largest [OF n(1) n(2)] have a:
    "resolvedValue ''0.3s, 0.5s'' =
      (if time_values ''0.3s, 0.5s'' = [] then Num 0
       else Num (Max (num_of ` set (time_values ''0.3s, 0.5s''))))"
    "resolvedValue ''75ms'' =
      (if time_values ''75ms'' = [] then Num 0 else Num (Max (num_of ` set (time_values ''75ms''))))"
    "totalDuration (''0.3s, 0.5s'', ''75ms'') =
      Num (num_of (resolvedValue ''0.3s, 0.5s'') + num_of (resolvedValue ''75ms''))"
    by blast+
  from resolved_value_is_largest [OF n(1) n(3)] have b:
    "resolvedValue [] = (if time_values [] = [] then Num 0 else Num (Max (num_of ` set (time_values []))))"
    "totalDuration (''0.3s, 0.5s'', []) =
      Num (num_of (resolvedValue ''0.3s, 0.5s'') + num_of (resolvedValue []))"
    by blast+
  have r: "resolvedValue ''0.3s, 0.5s'' = Num 500" "resolvedValue ''75ms'' = Num 75"
    "resolvedValue [] = Num 0"
    using a(1,2) b(1) m by (simp_all add: example_time_values del: Max_insert)
  from a(3) b(2) r n show ?thesis by simp
qed

section \<open>Properties of the Dialog\<close>

subsection \<open>Validation at setup\<close>

text \<open>
  C3. Setup throws the configuration error when neither the prop \<open>open\<close> nor an ambient
  open/closed state is supplied, and throws when the resolved \<open>open\<close> is not a boolean
  (a string other than the default, with or without an ambient state); it returns
  when the prop is a boolean, and when the prop is left out and an ambient state
  supplies the value.
\<close>

theorem Dialog_setup_validation:
  "Dialog_setup (PString Missing) None parent = Inl (Error forgot_open_message) \<and>
   (s \<noteq> Missing \<longrightarrow> Dialog_setup (PString s) u parent = Inl (Error (not_boolean_message s))) \<and>
   (\<exists>d. Dialog_setup (PBool b) u parent = Inr d \<and> open_value d = PBool b) \<and>
   (\<exists>d. Dialog_setup (PString Missing) (Some st) parent = Inr d \<and>
      open_value d = PBool (st = State_Open))"
  by (cases st; cases u) (auto simp: Dialog_setup_def open_value_def Let_def split: State.splits)

text \<open>
  The theorem at a missing prop, the string \<open>yes\<close>, a boolean prop and an ambient state.
\<close>

theorem Dialog_setup_validation_witness:
  "''yes'' \<noteq> Missing \<and>
   Dialog_setup (PString Missing) None False = Inl (Error forgot_open_message) \<and>
   Dialog_setup (PString ''yes'') (Some State_Open) False = Inl (Error (not_boolean_message ''yes'')) \<and>
   (\<exists>d. Dialog_setup (PBool True) None False = Inr d \<and> open_value d = PBool True) \<and>
   (\<exists>d. Dialog_setup (PString Missing) (Some State_Closed) False = Inr d \<and>
      open_value d = PBool False)"
  using Dialog_setup_validation [of False "''yes''" "Some State_Open" True State_Closed]
    Dialog_setup_validation [of False "''yes''" None True State_Closed]
  by (simp add: Missing_def)

subsection \<open>The derived state\<close>

text \<open>
  C4. Before the first mount \<open>dialogState\<close> is \<open>Closed\<close> whatever \<open>open\<close> resolves to,
  also right after setup and after a change of the prop; once mounted it is \<open>Open\<close>
  exactly when the resolved boolean \<open>open\<close> is true; \<open>enabled\<close> holds exactly when
  \<open>dialogState\<close> is \<open>Open\<close>.
\<close>

theorem dialogState_tracks_open:
  "(\<not> ready d \<longrightarrow> dialogState d = Closed) \<and>
   (ready d \<and> open_value d = PBool b \<longrightarrow> (dialogState d = Open \<longleftrightarrow> b)) \<and>
   (enabled d \<longleftrightarrow> dialogState d = Open) \<and>
   (Dialog_setup p u parent = Inr d0 \<longrightarrow>
      dialogState d0 = Closed \<and> dialogState (set_open q d0) = Closed \<and>
      (dialogState (onMounted d0) = Open \<longleftrightarrow> open_value d0 = PBool True))"
proof -
  have "dialogState d0 = Closed \<and> dialogState (set_open q d0) = Closed \<and>
      (dialogState (onMounted d0) = Open \<longleftrightarrow> open_value d0 = PBool True)"
    if "Dialog_setup p u parent = Inr d0"
  proof -
    from that have r: "\<not> ready d0" and b: "is_boolean (open_value d0)"
      by (auto simp: Dialog_setup_def Let_def split: if_splits)
    from b obtain x where x: "open_value d0 = PBool x" by (cases "open_value d0") auto
    have "open_value (onMounted d0) = open_value d0" by (simp add: open_value_def onMounted_def split: option.splits)
    with r x show ?thesis by (simp add: dialogState_def set_open_def onMounted_def)
  qed
  then show ?thesis by (auto simp: dialogState_def enabled_def)
qed

text \<open>
  The theorem at the open example dialog, at the same dialog before its mount, and at a fresh setup.
\<close>

theorem dialogState_tracks_open_witness:
  "ready example_dialog \<and> open_value example_dialog = PBool True \<and>
   dialogState example_dialog = Open \<and> enabled example_dialog \<and>
   \<not> ready (example_dialog\<lparr>ready := False\<rparr>) \<and>
   dialogState (example_dialog\<lparr>ready := False\<rparr>) = Closed \<and>
   (\<exists>d0. Dialog_setup (PBool True) None False = Inr d0 \<and> dialogState d0 = Closed \<and>
      dialogState (set_open (PBool False) d0) = Closed \<and> dialogState (onMounted d0) = Open)"
proof -
  have o: "open_value example_dialog = PBool True" "ready example_dialog"
    "\<not> ready (example_dialog\<lparr>ready := False\<rparr>)"
    by (simp_all add: open_value_def example_dialog_def)
  obtain d0 where d0: "Dialog_setup (PBool True) None False = Inr d0" "open_value d0 = PBool True"
    by (simp add: Dialog_setup_def open_value_def)
  from dialogState_tracks_open [of example_dialog True "PBool True" None False d0 "PBool False"]
    dialogState_tracks_open [of "example_dialog\<lparr>ready := False\<rparr>" True "PBool True" None False d0 "PBool False"]
    o d0
  show ?thesis by auto
qed

subsection \<open>Nesting, Escape and outside click\<close>

text \<open>
  C5. The position is \<open>leaf\<close> exactly when the nested-dialog count is at most 1 and
  \<open>parent\<close> otherwise. A dialog that is not both open and leaf does not react to a
  keydown (the event and the dialog are unchanged: no \<open>preventDefault\<close>, no
  \<open>stopPropagation\<close>, no \<open>close()\<close>) nor to an outside click; the open leaf reacts to an
  unhandled Escape and to a click outside every allowed container.
\<close>

theorem only_open_leaf_reacts:
  "(position d = ''leaf'' \<longleftrightarrow> nestedDialogCount d \<le> 1) \<and>
   (position d = ''parent'' \<longleftrightarrow> \<not> nestedDialogCount d \<le> 1) \<and>
   (\<not> (dialogState d = Open \<and> position d = ''leaf'') \<longrightarrow>
      keydown ev d = (ev, d) \<and> outside_click doc target d = (d, None)) \<and>
   (dialogState d = Open \<and> position d = ''leaf'' \<and> key ev = Keys_Escape \<and>
      \<not> defaultPrevented ev \<longrightarrow>
      keydown ev d = (ev\<lparr>defaultPrevented := True, propagationStopped := True\<rparr>, close d)) \<and>
   (dialogState d = Open \<and> position d = ''leaf'' \<and>
      \<not> list_ex (\<lambda>container.
             case container of None \<Rightarrow> False | Some c \<Rightarrow> dom_contains doc c target)
          (resolveAllowedContainers (Some doc) d) \<longrightarrow>
      outside_click doc target d = (close d, Some target))"
  by (auto simp: position_def hasNestedDialogs_def keydown_def outside_click_def)

text \<open>
  The theorem at the example dialog as a leaf and as a parent of a nested dialog.
\<close>

theorem only_open_leaf_reacts_witness:
  "dialogState example_dialog = Open \<and> position example_dialog = ''leaf'' \<and>
   key escape_event = Keys_Escape \<and> \<not> defaultPrevented escape_event \<and>
   keydown escape_event example_dialog =
     (escape_event\<lparr>defaultPrevented := True, propagationStopped := True\<rparr>, close example_dialog) \<and>
   position (example_dialog\<lparr>nestedDialogCount := 2\<rparr>) = ''parent'' \<and>
   keydown escape_event (example_dialog\<lparr>nestedDialogCount := 2\<rparr>) =
     (escape_event, example_dialog\<lparr>nestedDialogCount := 2\<rparr>) \<and>
   outside_click example_document 4 (example_dialog\<lparr>nestedDialogCount := 2\<rparr>) =
     (example_dialog\<lparr>nestedDialogCount := 2\<rparr>, None) \<and>
   resolveAllowedContainers (Some example_document) example_dialog = [Some 8] \<and>
   outside_click example_document 4 example_dialog = (close example_dialog, Some 4)"
proof -
  have r: "resolveAllowedContainers (Some example_document) example_dialog = [Some 8]"
    by (simp add: resolveAllowedContainers_def example_document_def example_dialog_def
        contains_opt_def)
  have o: "\<not> list_ex (\<lambda>container.
             case container of None \<Rightarrow> False | Some c \<Rightarrow> dom_contains example_document c 4)
          (resolveAllowedContainers (Some example_document) example_dialog)"
    unfolding r by (simp add: example_document_def)
  have a: "dialogState example_dialog = Open" "position example_dialog = ''leaf''"
    "key escape_event = Keys_Escape" "\<not> defaultPrevented escape_event"
    "position (example_dialog\<lparr>nestedDialogCount := 2\<rparr>) = ''parent''"
    by (simp_all add: dialogState_def open_value_def example_dialog_def position_def
        hasNestedDialogs_def escape_event_def Keys_Escape_def)
  from only_open_leaf_reacts [of example_dialog escape_event example_document 4]
    only_open_leaf_reacts [of "example_dialog\<lparr>nestedDialogCount := 2\<rparr>" escape_event example_document 4]
    a r o
  show ?thesis by simp
qed

subsection \<open>What close() changes\<close>

text \<open>
  C10. \<open>close()\<close> appends the event \<open>close\<close> with payload \<open>false\<close> to the emitted events
  and changes nothing else: \<open>dialogState\<close>, \<open>titleId\<close>, \<open>panelRef\<close>, the nested-dialog
  count, the containers, the props and what the scroll lock does are as before; the
  dialog is \<open>Closed\<close> once the host has set \<open>open\<close> to false.
\<close>

theorem close_only_emits:
  "emitted (close d) = emitted d @ [(''close'', False)] \<and>
   dialogState (close d) = dialogState d \<and> titleId (close d) = titleId d \<and>
   panelRef (close d) = panelRef d \<and> nestedDialogCount (close d) = nestedDialogCount d \<and>
   containers (close d) = containers d \<and> ready (close d) = ready d \<and>
   props_open (close d) = props_open d \<and> open_value (close d) = open_value d \<and>
   scroll_lock (close d) has_owner pg = scroll_lock d has_owner pg \<and>
   dialogState (set_open (PBool False) (close d)) = Closed"
  by (simp add: close_def dialogState_def open_value_def scroll_lock_def set_open_def
      split: option.splits State.splits)

text \<open>
  The theorem at the open example dialog.
\<close>

theorem close_only_emits_witness:
  "emitted (close example_dialog) = [(''close'', False)] \<and>
   dialogState (close example_dialog) = Open \<and>
   dialogState (set_open (PBool False) (close example_dialog)) = Closed"
proof -
  have "dialogState example_dialog = Open" "emitted example_dialog = []"
    by (simp_all add: dialogState_def open_value_def example_dialog_def)
  with close_only_emits [of example_dialog True undefined] show ?thesis by simp
qed

subsection \<open>The scroll lock\<close>

lemma css_names [simp]:
  "idl_to_css ''overflow'' = ''overflow''" "idl_to_css ''paddingRight'' = ''padding-right''"
  "idl_to_css ''marginTop'' = ''margin-top''"
  "ascii_lowercase ''overflow'' = ''overflow''"
  "ascii_lowercase ''paddingRight'' = ''paddingright''"
  "ascii_lowercase ''marginTop'' = ''margintop''"
  by code_simp+

lemma string_of_int_15: "string_of_int 15 = ''15''"
  by code_simp

text \<open>
  What lock and unlock do to the styles, for every dialog and page: \<open>overflow\<close> of the
  document element is restored to its value before the lock; no property besides
  \<open>overflow\<close> and \<open>padding-right\<close> of the document element and \<open>margin-top\<close> of the body
  is changed; but a patched \<open>padding-right\<close> ends as what \<open>getPropertyValue\<close> returned
  for the name \<open>paddingRight\<close>, which is the entry of the style under \<open>paddingright\<close>:
  the empty string on every style a browser builds.
\<close>

lemma scroll_lock_restores_overflow:
  "root_style (unlocked d has_owner pg) ''overflow'' = root_style pg ''overflow''"
  by (simp add: unlocked_def scroll_lock_def style_def style_of_def set_style_of_def
      getPropertyValue_def assign_style_def Let_def dispose_lock_def)

lemma scroll_lock_other_properties:
  "p \<noteq> ''overflow'' \<Longrightarrow> p \<noteq> ''padding-right'' \<Longrightarrow>
     root_style (unlocked d has_owner pg) p = root_style pg p"
  "q \<noteq> ''margin-top'' \<Longrightarrow> body_style (unlocked d has_owner pg) q = body_style pg q"
  by (simp_all add: unlocked_def scroll_lock_def style_def style_of_def set_style_of_def
      getPropertyValue_def assign_style_def Let_def dispose_lock_def split: option.splits)

lemma scroll_lock_padding_reset:
  assumes "dialogState d = Open" "\<not> hasParentDialog d" "has_owner"
    "innerWidth pg - clientWidth pg (root_style pg) > 0"
  shows "root_style (unlocked d has_owner pg) ''padding-right'' = root_style pg ''paddingright''"
  using assms
  by (simp add: unlocked_def scroll_lock_def style_def style_of_def set_style_of_def
      getPropertyValue_def assign_style_def Let_def dispose_lock_def split: option.splits)

text \<open>
  C6 at a failing input: the document element carries the inline style
  \<open>padding-right: 10px\<close> and a scrollbar of 15 pixels, the platform is not iOS. The lock
  sets \<open>overflow\<close> to \<open>hidden\<close> and \<open>padding-right\<close> to \<open>15px\<close>, and registers the
  previous values it read, both empty; the unlock restores \<open>overflow\<close> and leaves
  \<open>padding-right\<close> empty, not \<open>10px\<close>.
\<close>

theorem scroll_lock_loses_padding:
  "dialogState example_dialog = Open \<and> \<not> hasParentDialog example_dialog \<and>
   root_style example_page ''overflow'' = [] \<and>
   root_style example_page ''padding-right'' = ''10px'' \<and>
   root_style (fst (scroll_lock example_dialog True example_page)) ''overflow'' = ''hidden'' \<and>
   root_style (fst (scroll_lock example_dialog True example_page)) ''padding-right'' = ''15px'' \<and>
   snd (scroll_lock example_dialog True example_page) =
     [RestoreStyle DocumentElement ''overflow'' [], RestoreStyle DocumentElement ''paddingRight'' []] \<and>
   root_style (dispose_lock (snd (scroll_lock example_dialog True example_page))
     (fst (scroll_lock example_dialog True example_page))) ''overflow'' = [] \<and>
   root_style (dispose_lock (snd (scroll_lock example_dialog True example_page))
     (fst (scroll_lock example_dialog True example_page))) ''padding-right'' = []"
proof -
  have o: "dialogState example_dialog = Open" "\<not> hasParentDialog example_dialog"
    by (simp_all add: dialogState_def open_value_def example_dialog_def)
  have l: "scroll_lock example_dialog True example_page =
     (example_page\<lparr>root_style := (root_style example_page)
         (''overflow'' := ''hidden'', ''padding-right'' := ''15px'')\<rparr>,
      [RestoreStyle DocumentElement ''overflow'' [], RestoreStyle DocumentElement ''paddingRight'' []])"
    using o
    by (simp add: scroll_lock_def style_def style_of_def set_style_of_def getPropertyValue_def
        assign_style_def string_of_int_15 Let_def example_page_def)
  show ?thesis
    unfolding l using o
    by (simp add: dispose_lock_def style_of_def set_style_of_def assign_style_def example_page_def)
qed

end
